theory Spec2Isabelle
  imports Main
begin

section \<open>Time and configuration (config.go)\<close>

text \<open>
  A Go \<open>time.Time\<close> is an instant with nanosecond resolution; it is modelled as an
  integer number of nanoseconds, a \<open>time.Duration\<close> likewise. \<open>t.After(u)\<close> is
  \<open>u < t\<close>, \<open>t.Before(u)\<close> is \<open>t < u\<close>, \<open>t.Add(d)\<close> is \<open>t + d\<close>. Every call of
  \<open>time.Now()\<close> in the source is an explicit argument of the function that makes it.
\<close>

type_synonym time = int
type_synonym duration = int

definition Second :: duration where
  "Second = 1000000000"

definition Minute :: duration where
  "Minute = 60 * Second"

definition Hour :: duration where
  "Hour = 60 * Minute"

definition accessTokenTTL :: duration where
  "accessTokenTTL = 15 * Minute"

definition refreshTokenTTL :: duration where
  "refreshTokenTTL = 7 * 24 * Hour"

definition rateLimitWindow :: duration where
  "rateLimitWindow = Minute"

definition rateLimitMax :: nat where
  "rateLimitMax = 10"

definition jwtSecret :: string where
  "jwtSecret = ''apex-motors-secret-change-in-production''"

definition demoUsername :: string where
  "demoUsername = ''seller''"

definition demoPassword :: string where
  "demoPassword = ''carmarket123''"

section \<open>The token library (github.com/golang-jwt/jwt/v5), idealised\<close>

text \<open>
  The library is not part of the repository. Its cryptography and its wire format are
  idealised in the usual symbolic way; its control flow (decode, look the key up through
  the caller's key function, verify the signature, validate the time claims) is kept.

  \<^item> The claims a token carries are the fields of the repository's \<open>Claims\<close> struct
    (models.go): the user name, the token type, and of the embedded registered claims the
    three time stamps. The other registered claims (issuer, subject, audience, id) are
    never set and never read by the repository and are left out.
  \<^item> A signature is either the correct MAC of the token's own header and claims under a
    hash and a key, or anything else. A MAC under one hash or key is never a MAC under
    another (no collisions, no forgery without the key).
  \<^item> The compact serialisation of a token (three base64url segments joined by dots) is
    an opaque symbol of a Go string: a Go string is a list of symbols, each a byte or
    a whole serialised token. Two serialisations are equal exactly when header, claims and
    signature are equal, and a string parses as a token exactly when it is one such
    symbol. Prefixes, concatenation and the empty string are those of lists.
\<close>

datatype hash_alg = SHA256 | SHA384 | SHA512

datatype signing_method =
    SigningMethodHMAC hash_alg
  | SigningMethodRSA hash_alg
  | SigningMethodRSAPSS hash_alg
  | SigningMethodECDSA hash_alg
  | SigningMethodEd25519
  | SigningMethodNone

datatype signature = HMAC hash_alg string | NotAMac string

record Claims =
  Username :: string
  TokenType :: string
  ExpiresAt :: "time option"
  NotBefore :: "time option"
  IssuedAt :: "time option"

datatype jws = JWS (jws_alg: string) (jws_claims: Claims) (jws_sig: signature)

datatype sym = Chr char | Tok jws

type_synonym gostring = "sym list"

definition str :: "string \<Rightarrow> gostring" where
  "str s = map Chr s"

datatype error =
    ErrTokenMalformed
  | ErrTokenUnverifiable
  | ErrTokenSignatureInvalid
  | ErrTokenInvalidClaims
  | ErrSignatureInvalid
  | ErrInvalidKeyType
  | ErrHashUnavailable

record Token =
  tok_Method :: signing_method
  tok_Claims :: Claims
  tok_Signature :: signature
  Valid :: bool

text \<open>The registry of signing methods, by the name in the header's \<open>alg\<close> field.\<close>

definition GetSigningMethod :: "string \<Rightarrow> signing_method option" where
  "GetSigningMethod alg =
     (if alg = ''HS256'' then Some (SigningMethodHMAC SHA256)
      else if alg = ''HS384'' then Some (SigningMethodHMAC SHA384)
      else if alg = ''HS512'' then Some (SigningMethodHMAC SHA512)
      else if alg = ''RS256'' then Some (SigningMethodRSA SHA256)
      else if alg = ''RS384'' then Some (SigningMethodRSA SHA384)
      else if alg = ''RS512'' then Some (SigningMethodRSA SHA512)
      else if alg = ''PS256'' then Some (SigningMethodRSAPSS SHA256)
      else if alg = ''PS384'' then Some (SigningMethodRSAPSS SHA384)
      else if alg = ''PS512'' then Some (SigningMethodRSAPSS SHA512)
      else if alg = ''ES256'' then Some (SigningMethodECDSA SHA256)
      else if alg = ''ES384'' then Some (SigningMethodECDSA SHA384)
      else if alg = ''ES512'' then Some (SigningMethodECDSA SHA512)
      else if alg = ''EdDSA'' then Some SigningMethodEd25519
      else if alg = ''none'' then Some SigningMethodNone
      else None)"

definition Alg :: "signing_method \<Rightarrow> string" where
  "Alg m =
     (case m of
        SigningMethodHMAC SHA256 \<Rightarrow> ''HS256''
      | SigningMethodHMAC SHA384 \<Rightarrow> ''HS384''
      | SigningMethodHMAC SHA512 \<Rightarrow> ''HS512''
      | SigningMethodRSA SHA256 \<Rightarrow> ''RS256''
      | SigningMethodRSA SHA384 \<Rightarrow> ''RS384''
      | SigningMethodRSA SHA512 \<Rightarrow> ''RS512''
      | SigningMethodRSAPSS SHA256 \<Rightarrow> ''PS256''
      | SigningMethodRSAPSS SHA384 \<Rightarrow> ''PS384''
      | SigningMethodRSAPSS SHA512 \<Rightarrow> ''PS512''
      | SigningMethodECDSA SHA256 \<Rightarrow> ''ES256''
      | SigningMethodECDSA SHA384 \<Rightarrow> ''ES384''
      | SigningMethodECDSA SHA512 \<Rightarrow> ''ES512''
      | SigningMethodEd25519 \<Rightarrow> ''EdDSA''
      | SigningMethodNone \<Rightarrow> ''none'')"

text \<open>
  \<open>jwt.NewNumericDate\<close> truncates an instant to the library's time precision, which is
  one second: a token's time stamps are whole seconds.
\<close>

definition NewNumericDate :: "time \<Rightarrow> time" where
  "NewNumericDate t = (t div Second) * Second"

text \<open>
  \<open>method.Sign\<close> and \<open>method.Verify\<close> with a byte-slice key, the only kind of key the
  repository has. The asymmetric methods and \<open>none\<close> refuse such a key.
\<close>

definition Sign :: "signing_method \<Rightarrow> string \<Rightarrow> error + signature" where
  "Sign m key = (case m of SigningMethodHMAC h \<Rightarrow> Inr (HMAC h key) | _ \<Rightarrow> Inl ErrInvalidKeyType)"

definition Verify :: "signing_method \<Rightarrow> signature \<Rightarrow> string \<Rightarrow> bool" where
  "Verify m sg key = (case m of SigningMethodHMAC h \<Rightarrow> sg = HMAC h key | _ \<Rightarrow> False)"

text \<open>\<open>jwt.NewWithClaims(method, claims).SignedString(key)\<close>.\<close>

definition SignedString :: "signing_method \<Rightarrow> Claims \<Rightarrow> string \<Rightarrow> error + gostring" where
  "SignedString m claims key =
     (case Sign m key of
        Inl e \<Rightarrow> Inl e
      | Inr sg \<Rightarrow> Inr [Tok (JWS (Alg m) claims sg)])"

text \<open>
  \<open>Parser.ParseUnverified\<close>: split and decode the three segments and look the signing
  method up; no signature check yet.
\<close>

definition ParseUnverified :: "gostring \<Rightarrow> error + Token" where
  "ParseUnverified tokenString =
     (case tokenString of
        [Tok j] \<Rightarrow>
          (case GetSigningMethod (jws_alg j) of
             None \<Rightarrow> Inl ErrTokenUnverifiable
           | Some m \<Rightarrow>
               Inr \<lparr>tok_Method = m, tok_Claims = jws_claims j,
                    tok_Signature = jws_sig j, Valid = False\<rparr>)
      | _ \<Rightarrow> Inl ErrTokenMalformed)"

text \<open>
  The default validator: a token with an expiry is valid strictly before it, a token with
  a not-before time is valid from it on; with the default options neither is required, and
  the issued-at time is not checked.
\<close>

definition Validate :: "time \<Rightarrow> Claims \<Rightarrow> bool" where
  "Validate now c =
     ((case ExpiresAt c of None \<Rightarrow> True | Some e \<Rightarrow> now < e) \<and>
      (case NotBefore c of None \<Rightarrow> True | Some n \<Rightarrow> \<not> now < n))"

text \<open>
  \<open>jwt.ParseWithClaims(tokenString, claims, keyFunc)\<close> with the default parser options
  (no list of valid methods). \<open>now\<close> is the validator's reading of the clock.
\<close>

definition ParseWithClaims ::
  "time \<Rightarrow> gostring \<Rightarrow> (Token \<Rightarrow> error + string) \<Rightarrow> error + Token" where
  "ParseWithClaims now tokenString keyFunc =
     (case ParseUnverified tokenString of
        Inl e \<Rightarrow> Inl e
      | Inr token \<Rightarrow>
          (case keyFunc token of
             Inl e \<Rightarrow> Inl ErrTokenUnverifiable
           | Inr key \<Rightarrow>
               if \<not> Verify (tok_Method token) (tok_Signature token) key
               then Inl ErrTokenSignatureInvalid
               else if \<not> Validate now (tok_Claims token)
               then Inl ErrTokenInvalidClaims
               else Inr (token\<lparr>Valid := True\<rparr>)))"

section \<open>Token generation and validation (jwt.go), the stores (store.go)\<close>

text \<open>
  The two global maps of store.go that the session code uses: the refresh-token store
  (token string to user name) and the rate-limit store (client address to time stamps).
  A Go map read at a missing key gives the zero value, here the empty slice.
\<close>

record store =
  refreshTokens :: "gostring \<rightharpoonup> string"
  rateLimiter :: "string \<rightharpoonup> time list"

text \<open>
  The signing backend is an argument, so that its failure (the error return of
  \<open>SignedString\<close>) is a case of the model; \<^const>\<open>SignedString\<close> is the library's.
\<close>

type_synonym signer = "signing_method \<Rightarrow> Claims \<Rightarrow> string \<Rightarrow> error + gostring"

text \<open>The four readings of the clock that \<open>generateTokenPair\<close> takes, in order.\<close>

record clock =
  now_at_exp :: time
  now_at_iat :: time
  now_rt_exp :: time
  now_rt_iat :: time

definition generateTokenPair ::
  "signer \<Rightarrow> clock \<Rightarrow> string \<Rightarrow> store \<Rightarrow> (error + gostring \<times> gostring) \<times> store" where
  "generateTokenPair sgnr ck username s =
     (let atClaims = \<lparr>Username = username, TokenType = ''access'',
                       ExpiresAt = Some (NewNumericDate (now_at_exp ck + accessTokenTTL)),
                       NotBefore = None,
                       IssuedAt = Some (NewNumericDate (now_at_iat ck))\<rparr>
      in case sgnr (SigningMethodHMAC SHA256) atClaims jwtSecret of
           Inl e \<Rightarrow> (Inl e, s)
         | Inr accessToken \<Rightarrow>
             (let rtClaims = \<lparr>Username = username, TokenType = ''refresh'',
                               ExpiresAt = Some (NewNumericDate (now_rt_exp ck + refreshTokenTTL)),
                               NotBefore = None,
                               IssuedAt = Some (NewNumericDate (now_rt_iat ck))\<rparr>
              in case sgnr (SigningMethodHMAC SHA256) rtClaims jwtSecret of
                   Inl e \<Rightarrow> (Inl e, s)
                 | Inr refreshToken \<Rightarrow>
                     (Inr (accessToken, refreshToken),
                      s\<lparr>refreshTokens := (refreshTokens s)(refreshToken \<mapsto> username)\<rparr>)))"

text \<open>The key function of \<open>validateJWT\<close>: only the HMAC family gets the secret.\<close>

definition keyFunc :: "Token \<Rightarrow> error + string" where
  "keyFunc t =
     (case tok_Method t of
        SigningMethodHMAC h \<Rightarrow> Inr jwtSecret
      | _ \<Rightarrow> Inl ErrSignatureInvalid)"

definition validateJWT :: "time \<Rightarrow> gostring \<Rightarrow> string \<Rightarrow> error + Claims" where
  "validateJWT now tokenString expectedType =
     (case ParseWithClaims now tokenString keyFunc of
        Inl e \<Rightarrow> Inl ErrTokenInvalidClaims
      | Inr token \<Rightarrow>
          if \<not> Valid token then Inl ErrTokenInvalidClaims
          else if TokenType (tok_Claims token) \<noteq> expectedType then Inl ErrTokenInvalidClaims
          else Inr (tok_Claims token))"

section \<open>Requests and responses (models.go, response.go)\<close>

text \<open>
  What \<open>json.NewDecoder(r.Body).Decode\<close> leaves behind in the handler's struct: whether
  it reported an error, and the fields (a field the body does not set stays empty).
\<close>

record decoded =
  decode_err :: bool
  body_Username :: string
  body_Password :: string
  body_RefreshToken :: gostring

text \<open>
  The part of an \<open>http.Request\<close> the session code reads. A header that is absent reads
  as the empty string. \<open>ctx_claims\<close> is the value stored in the request context under the
  key \<open>claims\<close>.
\<close>

record request =
  Method :: string
  Authorization :: gostring
  XForwardedFor :: string
  RemoteAddr :: string
  Body :: decoded
  ctx_claims :: "Claims option"

record LoginResponse =
  AccessToken :: gostring
  RefreshToken :: gostring
  ExpiresIn :: int
  Message :: string

datatype payload = Nil | LoginData LoginResponse | MessageData string

text \<open>The status line, the \<open>Retry-After\<close> header and the JSON envelope of a response.\<close>

record response =
  status :: nat
  RetryAfter :: "string option"
  Success :: bool
  Data :: payload
  Error :: string

definition StatusOK :: nat where
  "StatusOK = 200"

definition StatusBadRequest :: nat where
  "StatusBadRequest = 400"

definition StatusUnauthorized :: nat where
  "StatusUnauthorized = 401"

definition StatusMethodNotAllowed :: nat where
  "StatusMethodNotAllowed = 405"

definition StatusTooManyRequests :: nat where
  "StatusTooManyRequests = 429"

definition StatusInternalServerError :: nat where
  "StatusInternalServerError = 500"

definition respond :: "nat \<Rightarrow> payload \<Rightarrow> string \<Rightarrow> response" where
  "respond code payload errMsg =
     \<lparr>status = code, RetryAfter = None, Success = (errMsg = []),
      Data = payload, Error = errMsg\<rparr>"

type_synonym handler = "request \<Rightarrow> store \<Rightarrow> response \<times> store"

section \<open>The session handlers (auth.go)\<close>

definition loginHandler :: "signer \<Rightarrow> clock \<Rightarrow> handler" where
  "loginHandler sgnr ck r s =
     (let creds = Body r in
      if decode_err creds then (respond StatusBadRequest Nil ''invalid request body'', s)
      else if body_Username creds \<noteq> demoUsername \<or> body_Password creds \<noteq> demoPassword
      then (respond StatusUnauthorized Nil ''invalid credentials'', s)
      else
        (case generateTokenPair sgnr ck (body_Username creds) s of
           (Inl e, s') \<Rightarrow> (respond StatusInternalServerError Nil ''token generation failed'', s')
         | (Inr (access, refresh), s') \<Rightarrow>
             (respond StatusOK
                (LoginData \<lparr>AccessToken = access, RefreshToken = refresh,
                            ExpiresIn = accessTokenTTL div Second,
                            Message = ''login successful''\<rparr>) [], s')))"

text \<open>
  \<open>vnow\<close> is the clock as the token validator reads it, \<open>ck\<close> the readings of the
  issuance that follows.
\<close>

definition refreshHandler :: "signer \<Rightarrow> time \<Rightarrow> clock \<Rightarrow> handler" where
  "refreshHandler sgnr vnow ck r s =
     (let body = Body r in
      if decode_err body then (respond StatusBadRequest Nil ''invalid request body'', s)
      else
        (case validateJWT vnow (body_RefreshToken body) ''refresh'' of
           Inl e \<Rightarrow> (respond StatusUnauthorized Nil ''invalid refresh token'', s)
         | Inr claims \<Rightarrow>
             (case refreshTokens s (body_RefreshToken body) of
                None \<Rightarrow> (respond StatusUnauthorized Nil ''refresh token revoked'', s)
              | Some owner \<Rightarrow>
                  (let s1 = s\<lparr>refreshTokens := (refreshTokens s)(body_RefreshToken body := None)\<rparr>
                   in case generateTokenPair sgnr ck (Username claims) s1 of
                        (Inl e, s') \<Rightarrow>
                          (respond StatusInternalServerError Nil ''token generation failed'', s')
                      | (Inr (access, refresh), s') \<Rightarrow>
                          (respond StatusOK
                             (LoginData \<lparr>AccessToken = access, RefreshToken = refresh,
                                         ExpiresIn = accessTokenTTL div Second,
                                         Message = ''tokens refreshed''\<rparr>) [], s')))))"

definition logoutHandler :: handler where
  "logoutHandler r s =
     (let body = Body r;
          s' = (if body_RefreshToken body \<noteq> []
                then s\<lparr>refreshTokens := (refreshTokens s)(body_RefreshToken body := None)\<rparr>
                else s)
      in (respond StatusOK (MessageData ''logged out'') [], s'))"

section \<open>The middleware (middleware.go) and the session routes (main.go)\<close>

type_synonym middleware = "handler \<Rightarrow> handler"

definition Chain :: "handler \<Rightarrow> middleware list \<Rightarrow> handler" where
  "Chain h mws = foldr (\<lambda>mw g. mw g) mws h"

text \<open>The log lines are not modelled; the wrapper passes the request on.\<close>

definition LoggingMiddleware :: middleware where
  "LoggingMiddleware nxt r s = nxt r s"

definition MethodMiddleware :: "string \<Rightarrow> middleware" where
  "MethodMiddleware method nxt r s =
     (if Method r \<noteq> method \<and> Method r \<noteq> ''OPTIONS''
      then (respond StatusMethodNotAllowed Nil ''method not allowed'', s)
      else nxt r s)"

text \<open>\<open>strings.Split(s, sep)[0]\<close>: the part of \<open>s\<close> before the first separator.\<close>

definition split_first :: "string \<Rightarrow> char \<Rightarrow> string" where
  "split_first s sep = takeWhile (\<lambda>c. c \<noteq> sep) s"

definition getIP :: "request \<Rightarrow> string" where
  "getIP r =
     (if XForwardedFor r \<noteq> [] then split_first (XForwardedFor r) (CHR '','')
      else split_first (RemoteAddr r) (CHR '':''))"

text \<open>
  The loop of \<open>isRateLimited\<close> keeps, in order, the stored time stamps that are after the
  start of the window; that is a filter.
\<close>

definition isRateLimited :: "time \<Rightarrow> string \<Rightarrow> store \<Rightarrow> bool \<times> store" where
  "isRateLimited now ip s =
     (let windowStart = now + (- rateLimitWindow);
          stored = (case rateLimiter s ip of None \<Rightarrow> [] | Some ts \<Rightarrow> ts);
          fresh = filter (\<lambda>t. windowStart < t) stored @ [now]
      in (rateLimitMax < length fresh, s\<lparr>rateLimiter := (rateLimiter s)(ip \<mapsto> fresh)\<rparr>))"

text \<open>
  The message of the 429 answer. Its dash is the three bytes of a UTF-8 em dash in the
  source.
\<close>

definition rateLimitMessage :: string where
  "rateLimitMessage =
     ''rate limit exceeded '' @ [CHR 0xE2, CHR 0x80, CHR 0x94] @ '' retry in 60s''"

definition RateLimitMiddleware :: "time \<Rightarrow> middleware" where
  "RateLimitMiddleware now nxt r s =
     (case isRateLimited now (getIP r) s of
        (True, s') \<Rightarrow>
          ((respond StatusTooManyRequests Nil rateLimitMessage)
             \<lparr>RetryAfter := Some ''60''\<rparr>, s')
      | (False, s') \<Rightarrow> nxt r s')"

text \<open>\<open>strings.TrimPrefix\<close>.\<close>

definition TrimPrefix :: "gostring \<Rightarrow> gostring \<Rightarrow> gostring" where
  "TrimPrefix s p = (if take (length p) s = p then drop (length p) s else s)"

definition AuthMiddleware :: "time \<Rightarrow> middleware" where
  "AuthMiddleware vnow nxt r s =
     (let authHeader = Authorization r in
      if authHeader = [] then (respond StatusUnauthorized Nil ''authorization header required'', s)
      else
        (let tokenStr = TrimPrefix authHeader (str ''Bearer '') in
         case validateJWT vnow tokenStr ''access'' of
           Inl e \<Rightarrow> (respond StatusUnauthorized Nil ''invalid or expired access token'', s)
         | Inr claims \<Rightarrow> nxt (r\<lparr>ctx_claims := Some claims\<rparr>) s))"

text \<open>The three session routes as main.go registers them.\<close>

definition api_login :: "signer \<Rightarrow> time \<Rightarrow> clock \<Rightarrow> handler" where
  "api_login sgnr rnow ck =
     LoggingMiddleware (Chain (loginHandler sgnr ck)
       [RateLimitMiddleware rnow, MethodMiddleware ''POST''])"

definition api_refresh :: "signer \<Rightarrow> time \<Rightarrow> time \<Rightarrow> clock \<Rightarrow> handler" where
  "api_refresh sgnr rnow vnow ck =
     LoggingMiddleware (Chain (refreshHandler sgnr vnow ck)
       [RateLimitMiddleware rnow, MethodMiddleware ''POST''])"

definition api_logout :: "time \<Rightarrow> handler" where
  "api_logout vnow =
     LoggingMiddleware (Chain logoutHandler [AuthMiddleware vnow, MethodMiddleware ''POST''])"

section \<open>Auxiliary notions for stating the properties\<close>

text \<open>The stores as store.go creates them: both maps empty.\<close>

definition initial_store :: store where
  "initial_store = \<lparr>refreshTokens = Map.empty, rateLimiter = Map.empty\<rparr>"

text \<open>
  The time stamps stored for a client (the empty slice when the map has no entry), and a
  run of rate-limit checks for one client at the given instants, one after the other,
  with the verdict of each (\<open>True\<close>: limited).
\<close>

definition entries :: "store \<Rightarrow> string \<Rightarrow> time list" where
  "entries s ip = (case rateLimiter s ip of None \<Rightarrow> [] | Some ts \<Rightarrow> ts)"

fun checks :: "time list \<Rightarrow> string \<Rightarrow> store \<Rightarrow> bool list \<times> store" where
  "checks [] ip s = ([], s)"
| "checks (t # ts) ip s =
     (case isRateLimited t ip s of
        (b, s') \<Rightarrow> (case checks ts ip s' of (bs, s'') \<Rightarrow> (b # bs, s'')))"

text \<open>
  What a string declares when it is a serialised token: the \<open>alg\<close> field of its header and
  the token type of its claims.
\<close>

definition declared_alg :: "gostring \<Rightarrow> string option" where
  "declared_alg tokenString = (case tokenString of [Tok j] \<Rightarrow> Some (jws_alg j) | _ \<Rightarrow> None)"

definition embedded_type :: "gostring \<Rightarrow> string option" where
  "embedded_type tokenString =
     (case tokenString of [Tok j] \<Rightarrow> Some (TokenType (jws_claims j)) | _ \<Rightarrow> None)"

text \<open>A well-formed POST request whose JSON body carries the given refresh token.\<close>

definition refresh_request :: "gostring \<Rightarrow> request" where
  "refresh_request t =
     \<lparr>Method = ''POST'', Authorization = [], XForwardedFor = [], RemoteAddr = ''10.0.0.1:4000'',
      Body = \<lparr>decode_err = False, body_Username = [], body_Password = [], body_RefreshToken = t\<rparr>,
      ctx_claims = None\<rparr>"

text \<open>
  The clock when all four readings of an issuance fall on one instant, and the two tokens
  that \<open>generateTokenPair\<close> builds with the library's signer (see
  \<open>generateTokenPair_SignedString\<close> below).
\<close>

definition clock_at :: "time \<Rightarrow> clock" where
  "clock_at t = \<lparr>now_at_exp = t, now_at_iat = t, now_rt_exp = t, now_rt_iat = t\<rparr>"

definition access_token :: "clock \<Rightarrow> string \<Rightarrow> gostring" where
  "access_token ck username =
     [Tok (JWS ''HS256''
        \<lparr>Username = username, TokenType = ''access'',
         ExpiresAt = Some (NewNumericDate (now_at_exp ck + accessTokenTTL)),
         NotBefore = None,
         IssuedAt = Some (NewNumericDate (now_at_iat ck))\<rparr>
        (HMAC SHA256 jwtSecret))]"

definition refresh_token :: "clock \<Rightarrow> string \<Rightarrow> gostring" where
  "refresh_token ck username =
     [Tok (JWS ''HS256''
        \<lparr>Username = username, TokenType = ''refresh'',
         ExpiresAt = Some (NewNumericDate (now_rt_exp ck + refreshTokenTTL)),
         NotBefore = None,
         IssuedAt = Some (NewNumericDate (now_rt_iat ck))\<rparr>
        (HMAC SHA256 jwtSecret))]"

text \<open>A well-formed POST request whose JSON body carries the given credentials.\<close>

definition login_request :: "string \<Rightarrow> string \<Rightarrow> request" where
  "login_request username password =
     \<lparr>Method = ''POST'', Authorization = [], XForwardedFor = [], RemoteAddr = ''10.0.0.1:4000'',
      Body = \<lparr>decode_err = False, body_Username = username, body_Password = password,
              body_RefreshToken = []\<rparr>,
      ctx_claims = None\<rparr>"



text \<open>The store after \<open>delete(refreshTokens, t)\<close>, and a store that holds one refresh token.\<close>

definition without_token :: "store \<Rightarrow> gostring \<Rightarrow> store" where
  "without_token s t = s\<lparr>refreshTokens := (refreshTokens s)(t := None)\<rparr>"

definition store_with :: "gostring \<Rightarrow> string \<Rightarrow> store" where
  "store_with t u = initial_store\<lparr>refreshTokens := [t \<mapsto> u]\<rparr>"

text \<open>
  The rotation handler cut at its lock operations. A call of \<open>refreshHandler\<close> touches the
  shared store in three critical sections, each under its own acquisition of
  \<open>refreshTokensMu\<close>: the look-up (read lock), the deletion (write lock), and the
  insertion at the end of \<open>generateTokenPair\<close> (write lock). Decoding, validation and
  signing read no shared state. A step runs the call up to the end of its next critical
  section; the mutex makes each step atomic, and between two steps of one call any step of
  another call may run.
\<close>

datatype refresh_pc =
    AtEntry
  | AtCheck Claims
  | AtDelete Claims
  | AtIssue Claims
  | Returned response

record call =
  call_signer :: signer
  call_vnow :: time
  call_clock :: clock
  call_request :: request

definition refresh_step :: "call \<Rightarrow> refresh_pc \<Rightarrow> store \<Rightarrow> refresh_pc \<times> store" where
  "refresh_step cl pc s =
     (let body = Body (call_request cl) in
      case pc of
        AtEntry \<Rightarrow>
          if decode_err body
          then (Returned (respond StatusBadRequest Nil ''invalid request body''), s)
          else
            (case validateJWT (call_vnow cl) (body_RefreshToken body) ''refresh'' of
               Inl e \<Rightarrow> (Returned (respond StatusUnauthorized Nil ''invalid refresh token''), s)
             | Inr claims \<Rightarrow> (AtCheck claims, s))
      | AtCheck claims \<Rightarrow>
          (case refreshTokens s (body_RefreshToken body) of
             None \<Rightarrow> (Returned (respond StatusUnauthorized Nil ''refresh token revoked''), s)
           | Some owner \<Rightarrow> (AtDelete claims, s))
      | AtDelete claims \<Rightarrow>
          (AtIssue claims, s\<lparr>refreshTokens := (refreshTokens s)(body_RefreshToken body := None)\<rparr>)
      | AtIssue claims \<Rightarrow>
          (case generateTokenPair (call_signer cl) (call_clock cl) (Username claims) s of
             (Inl e, s') \<Rightarrow>
               (Returned (respond StatusInternalServerError Nil ''token generation failed''), s')
           | (Inr (access, refresh), s') \<Rightarrow>
               (Returned (respond StatusOK
                  (LoginData \<lparr>AccessToken = access, RefreshToken = refresh,
                              ExpiresIn = accessTokenTTL div Second,
                              Message = ''tokens refreshed''\<rparr>) []), s'))
      | Returned resp \<Rightarrow> (Returned resp, s))"

text \<open>One call run alone, for a number of steps.\<close>

fun refresh_steps :: "nat \<Rightarrow> call \<Rightarrow> refresh_pc \<Rightarrow> store \<Rightarrow> refresh_pc \<times> store" where
  "refresh_steps 0 cl pc s = (pc, s)"
| "refresh_steps (Suc n) cl pc s =
     (case refresh_step cl pc s of (pc', s') \<Rightarrow> refresh_steps n cl pc' s')"

text \<open>
  Two calls on one store under a schedule: each entry of the schedule names the call that
  takes the next step (\<open>True\<close> the first, \<open>False\<close> the second).
\<close>

fun interleave ::
  "call \<Rightarrow> call \<Rightarrow> bool list \<Rightarrow> refresh_pc \<times> refresh_pc \<times> store \<Rightarrow>
   refresh_pc \<times> refresh_pc \<times> store" where
  "interleave a b [] cfg = cfg"
| "interleave a b (x # xs) (pa, pb, s) =
     (if x then (case refresh_step a pa s of (pa', s') \<Rightarrow> interleave a b xs (pa', pb, s'))
      else (case refresh_step b pb s of (pb', s') \<Rightarrow> interleave a b xs (pa, pb', s')))"

text \<open>A rotation call for the token \<open>t\<close> with the library's signer.\<close>

definition rotate_call :: "time \<Rightarrow> clock \<Rightarrow> gostring \<Rightarrow> call" where
  "rotate_call vnow ck t =
     \<lparr>call_signer = SignedString, call_vnow = vnow, call_clock = ck,
      call_request = refresh_request t\<rparr>"

section \<open>Properties\<close>

subsection \<open>The rate limiter\<close>

lemma isRateLimited_eq:
  "isRateLimited now ip s =
     (rateLimitMax < length (filter (\<lambda>t. now - rateLimitWindow < t) (entries s ip) @ [now]),
      s\<lparr>rateLimiter := (rateLimiter s)(ip \<mapsto> filter (\<lambda>t. now - rateLimitWindow < t) (entries s ip) @ [now])\<rparr>)"
  by (simp add: isRateLimited_def entries_def Let_def)

lemma entries_after:
  "entries (snd (isRateLimited now ip s)) ip = filter (\<lambda>t. now - rateLimitWindow < t) (entries s ip) @ [now]"
  by (simp add: isRateLimited_eq entries_def)

lemma fst_checks_Cons:
  "fst (checks (t # ts) ip s) =
     fst (isRateLimited t ip s) # fst (checks ts ip (snd (isRateLimited t ip s)))"
  by (simp split: prod.splits)

lemma snd_checks_Cons:
  "snd (checks (t # ts) ip s) = snd (checks ts ip (snd (isRateLimited t ip s)))"
  by (simp split: prod.splits)

lemma checks_all_fresh:
  "\<forall>t\<in>set ts. (\<forall>x\<in>set (entries s ip). t - rateLimitWindow < x) \<and> (\<forall>u\<in>set ts. t - rateLimitWindow < u) \<Longrightarrow>
   fst (checks ts ip s) = map (\<lambda>k. rateLimitMax < length (entries s ip) + k) [1..<Suc (length ts)]"
proof (induction ts arbitrary: s)
  case Nil
  then show ?case by simp
next
  case (Cons t ts)
  let ?s' = "snd (isRateLimited t ip s)"
  have keep: "filter (\<lambda>x. t - rateLimitWindow < x) (entries s ip) = entries s ip"
    using Cons.prems by (simp add: filter_id_conv)
  have e': "entries ?s' ip = entries s ip @ [t]"
    by (simp add: entries_after keep)
  have pre: "\<forall>u\<in>set ts. (\<forall>x\<in>set (entries ?s' ip). u - rateLimitWindow < x) \<and> (\<forall>v\<in>set ts. u - rateLimitWindow < v)"
    using Cons.prems by (simp add: e')
  have ih: "fst (checks ts ip ?s') = map (\<lambda>k. rateLimitMax < length (entries ?s' ip) + k) [1..<Suc (length ts)]"
    by (rule Cons.IH [OF pre])
  have b: "fst (isRateLimited t ip s) = (rateLimitMax < length (entries s ip) + 1)"
    by (simp add: isRateLimited_eq keep)
  have shift: "map (\<lambda>k. rateLimitMax < length (entries s ip) + k) [1..<Suc (Suc (length ts))]
     = (rateLimitMax < length (entries s ip) + 1) # map (\<lambda>k. rateLimitMax < length (entries s ip @ [t]) + k) [1..<Suc (length ts)]"
  proof -
    have "[1..<Suc (Suc (length ts))] = 1 # map Suc [1..<Suc (length ts)]"
      by (simp add: upt_conv_Cons map_Suc_upt del: upt_Suc)
    then show ?thesis by (simp add: comp_def del: upt_Suc)
  qed
  show ?case
    unfolding fst_checks_Cons using ih b shift by (simp add: e' del: upt_Suc checks.simps)
qed

lemma upto_replicate:
  "map (\<lambda>k. (n::nat) < k) [1..<Suc (Suc n)] = replicate n False @ [True]"
proof -
  have "map (\<lambda>k. n < k) [1..<Suc n] = replicate n False"
    by (rule replicate_eqI) auto
  then show ?thesis by simp
qed

lemma sorted_hd_last:
  "sorted (xs::int list) \<Longrightarrow> x \<in> set xs \<Longrightarrow> hd xs \<le> x \<and> x \<le> last xs"
  by (induction xs) (auto split: if_splits)

lemma burst:
  assumes "sorted ts" and "length ts = rateLimitMax + 1"
    and "last ts - hd ts < rateLimitWindow"
    and "\<forall>x\<in>set (entries s ip). x \<le> hd ts - rateLimitWindow"
  shows "fst (checks ts ip s) = replicate rateLimitMax False @ [True]"
proof -
  obtain t ts' where ts: "ts = t # ts'" using assms(2) by (cases ts) auto
  let ?s' = "snd (isRateLimited t ip s)"
  have drop: "filter (\<lambda>x. t - rateLimitWindow < x) (entries s ip) = []"
    using assms(4) ts by (auto simp: filter_empty_conv)
  have e': "entries ?s' ip = [t]" by (simp add: entries_after drop)
  have span: "u - rateLimitWindow < v" if "u \<in> set ts" "v \<in> set ts" for u v
    using sorted_hd_last [OF assms(1) that(1)] sorted_hd_last [OF assms(1) that(2)] assms(3)
    by linarith
  have pre: "\<forall>u\<in>set ts'. (\<forall>x\<in>set (entries ?s' ip). u - rateLimitWindow < x) \<and>
               (\<forall>v\<in>set ts'. u - rateLimitWindow < v)"
    using span by (simp add: e' ts)
  have len: "length ts' = rateLimitMax" using assms(2) ts by simp
  have first: "fst (isRateLimited t ip s) = (rateLimitMax < 1)"
    by (simp add: isRateLimited_eq drop)
  have rest: "fst (checks ts' ip ?s') = map (\<lambda>k. rateLimitMax < 1 + k) [1..<Suc rateLimitMax]"
    using checks_all_fresh [OF pre] by (simp add: e' len)
  have "fst (checks ts ip s) = map (\<lambda>k. rateLimitMax < k) [1..<Suc (Suc rateLimitMax)]"
  proof -
    have "[1..<Suc (Suc rateLimitMax)] = 1 # map Suc [1..<Suc rateLimitMax]"
      by (simp add: upt_conv_Cons map_Suc_upt del: upt_Suc)
    then show ?thesis
      unfolding ts fst_checks_Cons using first rest by (simp add: comp_def del: upt_Suc checks.simps)
  qed
  then show ?thesis by (simp only: upto_replicate)
qed

lemma entries_checks_all_fresh:
  "\<forall>t\<in>set ts. (\<forall>x\<in>set (entries s ip). t - rateLimitWindow < x) \<and> (\<forall>u\<in>set ts. t - rateLimitWindow < u) \<Longrightarrow>
   entries (snd (checks ts ip s)) ip = entries s ip @ ts"
proof (induction ts arbitrary: s)
  case Nil
  then show ?case by simp
next
  case (Cons t ts)
  let ?s' = "snd (isRateLimited t ip s)"
  have keep: "filter (\<lambda>x. t - rateLimitWindow < x) (entries s ip) = entries s ip"
    using Cons.prems by (simp add: filter_id_conv)
  have e': "entries ?s' ip = entries s ip @ [t]"
    by (simp add: entries_after keep)
  have pre: "\<forall>u\<in>set ts. (\<forall>x\<in>set (entries ?s' ip). u - rateLimitWindow < x) \<and> (\<forall>v\<in>set ts. u - rateLimitWindow < v)"
    using Cons.prems by (simp add: e')
  show ?case
    unfolding snd_checks_Cons using Cons.IH [OF pre] by (simp add: e')
qed

lemma entries_burst:
  assumes "sorted ts" and "ts \<noteq> []"
    and "last ts - hd ts < rateLimitWindow"
    and "\<forall>x\<in>set (entries s ip). x \<le> hd ts - rateLimitWindow"
  shows "entries (snd (checks ts ip s)) ip = ts"
proof -
  obtain t ts' where ts: "ts = t # ts'" using assms(2) by (cases ts) auto
  let ?s' = "snd (isRateLimited t ip s)"
  have drop: "filter (\<lambda>x. t - rateLimitWindow < x) (entries s ip) = []"
    using assms(4) ts by (auto simp: filter_empty_conv)
  have e': "entries ?s' ip = [t]" by (simp add: entries_after drop)
  have span: "u - rateLimitWindow < v" if "u \<in> set ts" "v \<in> set ts" for u v
    using sorted_hd_last [OF assms(1) that(1)] sorted_hd_last [OF assms(1) that(2)] assms(3)
    by linarith
  have pre: "\<forall>u\<in>set ts'. (\<forall>x\<in>set (entries ?s' ip). u - rateLimitWindow < x) \<and>
               (\<forall>v\<in>set ts'. u - rateLimitWindow < v)"
    using span by (simp add: e' ts)
  show ?thesis
    unfolding ts snd_checks_Cons using entries_checks_all_fresh [OF pre] by (simp add: e')
qed

lemma allowed_after_quiet:
  assumes "\<forall>x\<in>set (entries s ip). x \<le> now - rateLimitWindow"
  shows "\<not> fst (isRateLimited now ip s)"
proof -
  have "filter (\<lambda>x. now - rateLimitWindow < x) (entries s ip) = []"
    using assms by (auto simp: filter_empty_conv)
  then show ?thesis by (simp add: isRateLimited_eq rateLimitMax_def)
qed

lemma RateLimitMiddleware_eq:
  "RateLimitMiddleware now nxt r s =
     (if fst (isRateLimited now (getIP r) s)
      then (\<lparr>status = 429, RetryAfter = Some ''60'', Success = False, Data = Nil,
             Error = rateLimitMessage\<rparr>, snd (isRateLimited now (getIP r) s))
      else nxt r (snd (isRateLimited now (getIP r) s)))"
  by (simp add: RateLimitMiddleware_def respond_def StatusTooManyRequests_def rateLimitMessage_def
      split: prod.splits bool.splits)

text \<open>
  Claim C3. One check keeps the stored time stamps that are after the start of the window,
  appends the current instant, stores the result and reports the client as limited exactly
  when more than \<open>rateLimitMax\<close> time stamps remain; the middleware answers a limited
  client with 429 and \<open>Retry-After: 60\<close> and passes any other request on. For a client
  with no time stamp inside the window, a burst of \<open>rateLimitMax + 1\<close> requests within
  one window has its first \<open>rateLimitMax\<close> requests allowed and its last one limited,
  and a request a full window after the burst is allowed; so is any request of a client
  all of whose stored time stamps are a full window old.
\<close>

theorem rate_limit_burst:
  "isRateLimited now ip s =
     (rateLimitMax < length (filter (\<lambda>t. now - rateLimitWindow < t) (entries s ip) @ [now]),
      s\<lparr>rateLimiter := (rateLimiter s)(ip \<mapsto>
           filter (\<lambda>t. now - rateLimitWindow < t) (entries s ip) @ [now])\<rparr>)
   \<and> RateLimitMiddleware now nxt r s =
     (if fst (isRateLimited now (getIP r) s)
      then (\<lparr>status = 429, RetryAfter = Some ''60'', Success = False, Data = Nil,
             Error = rateLimitMessage\<rparr>, snd (isRateLimited now (getIP r) s))
      else nxt r (snd (isRateLimited now (getIP r) s)))
   \<and> (sorted ts \<and> length ts = rateLimitMax + 1 \<and> last ts - hd ts < rateLimitWindow \<and>
        (\<forall>x\<in>set (entries s ip). x \<le> hd ts - rateLimitWindow) \<longrightarrow>
        fst (checks ts ip s) = replicate rateLimitMax False @ [True] \<and>
        (\<forall>t'. last ts + rateLimitWindow \<le> t' \<longrightarrow> \<not> fst (isRateLimited t' ip (snd (checks ts ip s)))))
   \<and> ((\<forall>x\<in>set (entries s ip). x \<le> now - rateLimitWindow) \<longrightarrow> \<not> fst (isRateLimited now ip s))"
proof (intro conjI impI allI)
  show "isRateLimited now ip s =
     (rateLimitMax < length (filter (\<lambda>t. now - rateLimitWindow < t) (entries s ip) @ [now]),
      s\<lparr>rateLimiter := (rateLimiter s)(ip \<mapsto>
           filter (\<lambda>t. now - rateLimitWindow < t) (entries s ip) @ [now])\<rparr>)"
    by (rule isRateLimited_eq)
next
  show "RateLimitMiddleware now nxt r s =
     (if fst (isRateLimited now (getIP r) s)
      then (\<lparr>status = 429, RetryAfter = Some ''60'', Success = False, Data = Nil,
             Error = rateLimitMessage\<rparr>, snd (isRateLimited now (getIP r) s))
      else nxt r (snd (isRateLimited now (getIP r) s)))"
    by (rule RateLimitMiddleware_eq)
next
  assume h: "sorted ts \<and> length ts = rateLimitMax + 1 \<and> last ts - hd ts < rateLimitWindow \<and>
        (\<forall>x\<in>set (entries s ip). x \<le> hd ts - rateLimitWindow)"
  then show "fst (checks ts ip s) = replicate rateLimitMax False @ [True]"
    by (simp add: burst)
next
  fix t'
  assume h: "sorted ts \<and> length ts = rateLimitMax + 1 \<and> last ts - hd ts < rateLimitWindow \<and>
        (\<forall>x\<in>set (entries s ip). x \<le> hd ts - rateLimitWindow)"
    and late: "last ts + rateLimitWindow \<le> t'"
  from h have ne: "ts \<noteq> []" by auto
  have e: "entries (snd (checks ts ip s)) ip = ts"
    using h ne by (simp add: entries_burst)
  have "\<forall>x\<in>set ts. x \<le> t' - rateLimitWindow"
    using sorted_hd_last h late by fastforce
  then show "\<not> fst (isRateLimited t' ip (snd (checks ts ip s)))"
    by (intro allowed_after_quiet) (simp add: e)
next
  assume "\<forall>x\<in>set (entries s ip). x \<le> now - rateLimitWindow"
  then show "\<not> fst (isRateLimited now ip s)" by (rule allowed_after_quiet)
qed

theorem rate_limit_burst_witness:
  "fst (checks [0, 1, 2, 3, 4, 5, 6, 7, 8, 9, 10] ''10.0.0.1'' initial_store)
     = [False, False, False, False, False, False, False, False, False, False, True]
   \<and> \<not> fst (isRateLimited (10 + rateLimitWindow) ''10.0.0.1''
           (snd (checks [0, 1, 2, 3, 4, 5, 6, 7, 8, 9, 10] ''10.0.0.1'' initial_store)))
   \<and> \<not> fst (isRateLimited 0 ''10.0.0.1'' initial_store)"
  using rate_limit_burst [where now = 0 and ip = "''10.0.0.1''" and s = initial_store
      and ts = "[0, 1, 2, 3, 4, 5, 6, 7, 8, 9, 10]"]
  by (simp add: entries_def initial_store_def rateLimitMax_def rateLimitWindow_def
      Minute_def Second_def numeral_eq_Suc del: checks.simps)

text \<open>
  Claim C4 as stated fails: a limited request is recorded like any other, so after eleven
  requests within one window the client's stored sequence has eleven time stamps inside
  the window, one more than \<open>rateLimitMax\<close>.
\<close>

theorem rate_window_bound_counterexample:
  "\<not> length (filter (\<lambda>x. 10 - rateLimitWindow < x)
        (entries (snd (checks [0, 1, 2, 3, 4, 5, 6, 7, 8, 9, 10] ''10.0.0.1'' initial_store))
           ''10.0.0.1'')) \<le> rateLimitMax"
  by (simp add: entries_def initial_store_def rateLimitMax_def rateLimitWindow_def
      Minute_def Second_def isRateLimited_def Let_def)

text \<open>
  Claim C4, amended. After a check every time stamp stored for the client lies inside the
  trailing window (older ones are dropped), the request was allowed exactly when the
  stored sequence has at most \<open>rateLimitMax\<close> entries, and the sequences of the other
  clients are untouched.
\<close>

theorem rate_window_after_check:
  "(\<forall>x\<in>set (entries (snd (isRateLimited now ip s)) ip). now - rateLimitWindow < x)
   \<and> (\<not> fst (isRateLimited now ip s) \<longleftrightarrow>
        length (entries (snd (isRateLimited now ip s)) ip) \<le> rateLimitMax)
   \<and> (ip' \<noteq> ip \<longrightarrow> entries (snd (isRateLimited now ip s)) ip' = entries s ip')"
  by (auto simp: isRateLimited_eq entries_def rateLimitWindow_def Minute_def Second_def)

theorem rate_window_after_check_witness:
  "set (entries (snd (isRateLimited 70000000000 ''10.0.0.1''
        (initial_store\<lparr>rateLimiter := [''10.0.0.1'' \<mapsto> [0, 20000000000], ''10.0.0.2'' \<mapsto> [5]]\<rparr>)))
        ''10.0.0.1'') = {20000000000, 70000000000}
   \<and> \<not> fst (isRateLimited 70000000000 ''10.0.0.1''
        (initial_store\<lparr>rateLimiter := [''10.0.0.1'' \<mapsto> [0, 20000000000], ''10.0.0.2'' \<mapsto> [5]]\<rparr>))
   \<and> entries (snd (isRateLimited 70000000000 ''10.0.0.1''
        (initial_store\<lparr>rateLimiter := [''10.0.0.1'' \<mapsto> [0, 20000000000], ''10.0.0.2'' \<mapsto> [5]]\<rparr>)))
        ''10.0.0.2'' = [5]"
  using rate_window_after_check [of 70000000000 "''10.0.0.1''"
      "initial_store\<lparr>rateLimiter := [''10.0.0.1'' \<mapsto> [0, 20000000000], ''10.0.0.2'' \<mapsto> [5]]\<rparr>"
      "''10.0.0.2''"]
  by (simp add: entries_def initial_store_def rateLimitMax_def rateLimitWindow_def
      Minute_def Second_def isRateLimited_def Let_def)

subsection \<open>Tokens\<close>

lemma not_token_cases:
  "(\<exists>j. tokenString = [Tok j]) \<or> ParseUnverified tokenString = Inl ErrTokenMalformed"
  by (simp add: ParseUnverified_def split: list.splits sym.splits)

lemma ParseWithClaims_malformed:
  "ParseUnverified tokenString = Inl e \<Longrightarrow> ParseWithClaims now tokenString kf = Inl e"
  by (simp add: ParseWithClaims_def)

lemma ParseUnverified_Tok:
  "ParseUnverified [Tok j] =
     (case GetSigningMethod (jws_alg j) of
        None \<Rightarrow> Inl ErrTokenUnverifiable
      | Some m \<Rightarrow> Inr \<lparr>tok_Method = m, tok_Claims = jws_claims j,
                      tok_Signature = jws_sig j, Valid = False\<rparr>)"
  by (simp add: ParseUnverified_def)

lemma ParseWithClaims_Tok:
  "ParseWithClaims now [Tok j] keyFunc =
     (case GetSigningMethod (jws_alg j) of
        None \<Rightarrow> Inl ErrTokenUnverifiable
      | Some m \<Rightarrow>
          (case m of
             SigningMethodHMAC h \<Rightarrow>
               if jws_sig j \<noteq> HMAC h jwtSecret then Inl ErrTokenSignatureInvalid
               else if \<not> Validate now (jws_claims j) then Inl ErrTokenInvalidClaims
               else Inr \<lparr>tok_Method = m, tok_Claims = jws_claims j,
                         tok_Signature = jws_sig j, Valid = True\<rparr>
           | _ \<Rightarrow> Inl ErrTokenUnverifiable))"
proof (cases "GetSigningMethod (jws_alg j)")
  case None
  then show ?thesis by (simp add: ParseWithClaims_def ParseUnverified_Tok)
next
  case (Some m)
  then show ?thesis
    by (cases m) (simp_all add: ParseWithClaims_def ParseUnverified_Tok keyFunc_def Verify_def)
qed

lemma validateJWT_Tok:
  "validateJWT now [Tok j] ty =
     (case GetSigningMethod (jws_alg j) of
        None \<Rightarrow> Inl ErrTokenInvalidClaims
      | Some m \<Rightarrow>
          (case m of
             SigningMethodHMAC h \<Rightarrow>
               if jws_sig j = HMAC h jwtSecret \<and> Validate now (jws_claims j) \<and>
                  TokenType (jws_claims j) = ty
               then Inr (jws_claims j) else Inl ErrTokenInvalidClaims
           | _ \<Rightarrow> Inl ErrTokenInvalidClaims))"
proof (cases "GetSigningMethod (jws_alg j)")
  case None
  then show ?thesis by (simp add: validateJWT_def ParseWithClaims_Tok)
next
  case (Some m)
  then show ?thesis
    by (cases m) (simp_all add: validateJWT_def ParseWithClaims_Tok)
qed

lemma validateJWT_not_token:
  "\<forall>j. tokenString \<noteq> [Tok j] \<Longrightarrow> validateJWT now tokenString ty = Inl ErrTokenInvalidClaims"
  using not_token_cases [of tokenString]
  by (auto simp: validateJWT_def ParseWithClaims_malformed)

lemma validateJWT_Inr_iff:
  "validateJWT now tokenString expectedType = Inr c \<longleftrightarrow>
     (\<exists>j h. tokenString = [Tok j] \<and> GetSigningMethod (jws_alg j) = Some (SigningMethodHMAC h) \<and>
        jws_sig j = HMAC h jwtSecret \<and> Validate now (jws_claims j) \<and>
        TokenType (jws_claims j) = expectedType \<and> c = jws_claims j)"
proof (cases "\<exists>j. tokenString = [Tok j]")
  case False
  then show ?thesis by (simp add: validateJWT_not_token)
next
  case True
  then obtain j where j: "tokenString = [Tok j]" by blast
  show ?thesis
  proof (cases "GetSigningMethod (jws_alg j)")
    case None
    then show ?thesis by (simp add: j validateJWT_Tok)
  next
    case (Some m)
    then show ?thesis
      by (cases m) (auto simp: j validateJWT_Tok)
  qed
qed

lemma validateJWT_error:
  "validateJWT now tokenString expectedType = Inl e \<Longrightarrow> e = ErrTokenInvalidClaims"
  by (auto simp: validateJWT_def split: sum.splits if_splits)

lemma validateJWT_cases:
  "validateJWT now tokenString expectedType = Inl ErrTokenInvalidClaims \<or>
   (\<exists>c. validateJWT now tokenString expectedType = Inr c)"
  by (cases "validateJWT now tokenString expectedType") (auto dest: validateJWT_error)

lemma TrimPrefix_Bearer: "TrimPrefix (str ''Bearer '' @ tok) (str ''Bearer '') = tok"
  by (simp add: TrimPrefix_def str_def)

lemma TrimPrefix_Tok: "TrimPrefix [Tok j] (str ''Bearer '') = [Tok j]"
  by (simp add: TrimPrefix_def str_def)

lemma validateJWT_wrong_type:
  "embedded_type tokenString \<noteq> Some expectedType \<Longrightarrow>
   validateJWT now tokenString expectedType = Inl ErrTokenInvalidClaims"
  using validateJWT_cases [of now tokenString expectedType]
  by (auto simp: validateJWT_Inr_iff embedded_type_def)

lemma validateJWT_embedded_type:
  "validateJWT now tokenString ty = Inr c \<Longrightarrow> embedded_type tokenString = Some ty"
  by (auto simp: validateJWT_Inr_iff embedded_type_def)

lemma AuthMiddleware_eq:
  "AuthMiddleware vnow nxt r s =
     (if Authorization r = []
      then (respond StatusUnauthorized Nil ''authorization header required'', s)
      else (case validateJWT vnow (TrimPrefix (Authorization r) (str ''Bearer '')) ''access'' of
              Inl e \<Rightarrow> (respond StatusUnauthorized Nil ''invalid or expired access token'', s)
            | Inr claims \<Rightarrow> nxt (r\<lparr>ctx_claims := Some claims\<rparr>) s))"
  by (simp add: AuthMiddleware_def Let_def)

text \<open>
  Claim C5. A token whose embedded type differs from the expected type fails verification.
  A refresh token that verifies as such is rejected by the access guard with 401, with or
  without the \<open>Bearer\<close> prefix and whatever the time; an access token that verifies as such
  is rejected by the rotation handler with 401.
\<close>

theorem role_separation:
  "(embedded_type tokenString \<noteq> Some expectedType \<longrightarrow>
      validateJWT now tokenString expectedType = Inl ErrTokenInvalidClaims)
   \<and> (validateJWT now rt ''refresh'' = Inr c \<longrightarrow>
        validateJWT vnow rt ''access'' = Inl ErrTokenInvalidClaims \<and>
        AuthMiddleware vnow nxt (r\<lparr>Authorization := str ''Bearer '' @ rt\<rparr>) s =
          (respond StatusUnauthorized Nil ''invalid or expired access token'', s) \<and>
        AuthMiddleware vnow nxt (r\<lparr>Authorization := rt\<rparr>) s =
          (respond StatusUnauthorized Nil ''invalid or expired access token'', s))
   \<and> (validateJWT now at ''access'' = Inr c \<and> \<not> decode_err (Body r) \<and> body_RefreshToken (Body r) = at \<longrightarrow>
        validateJWT vnow at ''refresh'' = Inl ErrTokenInvalidClaims \<and>
        refreshHandler sgnr vnow ck r s =
          (respond StatusUnauthorized Nil ''invalid refresh token'', s))"
proof (intro conjI impI)
  assume "embedded_type tokenString \<noteq> Some expectedType"
  then show "validateJWT now tokenString expectedType = Inl ErrTokenInvalidClaims"
    by (rule validateJWT_wrong_type)
next
  assume v: "validateJWT now rt ''refresh'' = Inr c"
  then obtain j where j: "rt = [Tok j]" by (auto simp: validateJWT_Inr_iff)
  have ty: "embedded_type rt \<noteq> Some ''access''"
    using validateJWT_embedded_type [OF v] by simp
  show bad: "validateJWT vnow rt ''access'' = Inl ErrTokenInvalidClaims"
    using ty by (rule validateJWT_wrong_type)
  show "AuthMiddleware vnow nxt (r\<lparr>Authorization := str ''Bearer '' @ rt\<rparr>) s =
          (respond StatusUnauthorized Nil ''invalid or expired access token'', s)"
    using bad by (simp add: AuthMiddleware_eq TrimPrefix_Bearer) (simp add: str_def)
  show "AuthMiddleware vnow nxt (r\<lparr>Authorization := rt\<rparr>) s =
          (respond StatusUnauthorized Nil ''invalid or expired access token'', s)"
    using bad by (simp add: AuthMiddleware_eq j TrimPrefix_Tok)
next
  assume h: "validateJWT now at ''access'' = Inr c \<and> \<not> decode_err (Body r) \<and> body_RefreshToken (Body r) = at"
  have ty: "embedded_type at \<noteq> Some ''refresh''"
    using validateJWT_embedded_type [of now at "''access''" c] h by simp
  then show bad: "validateJWT vnow at ''refresh'' = Inl ErrTokenInvalidClaims"
    by (rule validateJWT_wrong_type)
  show "refreshHandler sgnr vnow ck r s =
          (respond StatusUnauthorized Nil ''invalid refresh token'', s)"
    using bad h by (simp add: refreshHandler_def Let_def)
qed

lemma generateTokenPair_SignedString:
  "generateTokenPair SignedString ck username s =
     (Inr (access_token ck username, refresh_token ck username),
      s\<lparr>refreshTokens := (refreshTokens s)(refresh_token ck username \<mapsto> username)\<rparr>)"
  by (simp add: generateTokenPair_def SignedString_def Sign_def Alg_def access_token_def
      refresh_token_def Let_def)

lemma validate_access_token:
  "validateJWT vnow (access_token ck username) ty =
     (if vnow < NewNumericDate (now_at_exp ck + accessTokenTTL) \<and> ty = ''access''
      then Inr \<lparr>Username = username, TokenType = ''access'',
         ExpiresAt = Some (NewNumericDate (now_at_exp ck + accessTokenTTL)),
         NotBefore = None,
         IssuedAt = Some (NewNumericDate (now_at_iat ck))\<rparr>
      else Inl ErrTokenInvalidClaims)"
  by (auto simp: access_token_def validateJWT_def ParseWithClaims_def ParseUnverified_def
      GetSigningMethod_def keyFunc_def Verify_def Validate_def)

lemma validate_refresh_token:
  "validateJWT vnow (refresh_token ck username) ty =
     (if vnow < NewNumericDate (now_rt_exp ck + refreshTokenTTL) \<and> ty = ''refresh''
      then Inr \<lparr>Username = username, TokenType = ''refresh'',
         ExpiresAt = Some (NewNumericDate (now_rt_exp ck + refreshTokenTTL)),
         NotBefore = None,
         IssuedAt = Some (NewNumericDate (now_rt_iat ck))\<rparr>
      else Inl ErrTokenInvalidClaims)"
  by (auto simp: refresh_token_def validateJWT_def ParseWithClaims_def ParseUnverified_def
      GetSigningMethod_def keyFunc_def Verify_def Validate_def)

lemma NewNumericDate_numeral [simp]:
  "NewNumericDate (numeral n) = (numeral n div 1000000000) * 1000000000"
  "NewNumericDate 0 = 0"
  by (simp_all add: NewNumericDate_def Second_def)

theorem role_separation_witness:
  "validateJWT 5 (refresh_token (clock_at 0) ''seller'') ''access'' = Inl ErrTokenInvalidClaims
   \<and> AuthMiddleware 5 logoutHandler
       ((refresh_request [])\<lparr>Authorization := str ''Bearer '' @ refresh_token (clock_at 0) ''seller''\<rparr>)
       initial_store
     = (respond StatusUnauthorized Nil ''invalid or expired access token'', initial_store)
   \<and> refreshHandler SignedString 5 (clock_at 5) (refresh_request (access_token (clock_at 0) ''seller''))
       initial_store
     = (respond StatusUnauthorized Nil ''invalid refresh token'', initial_store)"
proof -
  have r: "validateJWT 5 (refresh_token (clock_at 0) ''seller'') ''refresh'' =
      Inr \<lparr>Username = ''seller'', TokenType = ''refresh'',
         ExpiresAt = Some (NewNumericDate (0 + refreshTokenTTL)), NotBefore = None,
         IssuedAt = Some 0\<rparr>"
    by (simp add: validate_refresh_token clock_at_def refreshTokenTTL_def Hour_def Minute_def
        Second_def NewNumericDate_def)
  have a: "validateJWT 5 (access_token (clock_at 0) ''seller'') ''access'' =
      Inr \<lparr>Username = ''seller'', TokenType = ''access'',
         ExpiresAt = Some (NewNumericDate (0 + accessTokenTTL)), NotBefore = None,
         IssuedAt = Some 0\<rparr>"
    by (simp add: validate_access_token clock_at_def accessTokenTTL_def Minute_def
        Second_def NewNumericDate_def)
  have d: "\<not> decode_err (Body (refresh_request (access_token (clock_at 0) ''seller'')))"
    "body_RefreshToken (Body (refresh_request (access_token (clock_at 0) ''seller''))) =
       access_token (clock_at 0) ''seller''"
    by (simp_all add: refresh_request_def)
  show ?thesis
    using role_separation [where now = 5 and vnow = 5 and rt = "refresh_token (clock_at 0) ''seller''"
        and nxt = logoutHandler and r = "refresh_request []" and s = initial_store]
      role_separation [where now = 5 and vnow = 5 and at = "access_token (clock_at 0) ''seller''"
        and r = "refresh_request (access_token (clock_at 0) ''seller'')" and s = initial_store
        and sgnr = SignedString and ck = "clock_at 5"]
      r a d
    by simp
qed

lemma validateJWT_declared_alg:
  "validateJWT now tokenString expectedType = Inr c \<Longrightarrow>
   declared_alg tokenString \<in> {Some ''HS256'', Some ''HS384'', Some ''HS512''}"
  by (auto simp: validateJWT_Inr_iff declared_alg_def GetSigningMethod_def split: if_splits)

text \<open>
  Claim C6 as stated fails: the key function admits every method of the HMAC family, so a
  token that declares HS384 and carries the HMAC-SHA384 of its content under the server's
  secret verifies, although HS384 is not the scheme of issuance.
\<close>

theorem algorithm_substitution_counterexample:
  "declared_alg [Tok (JWS ''HS384''
       \<lparr>Username = ''seller'', TokenType = ''access'', ExpiresAt = None, NotBefore = None,
        IssuedAt = None\<rparr> (HMAC SHA384 jwtSecret))] \<noteq> Some ''HS256''
   \<and> validateJWT 0 [Tok (JWS ''HS384''
       \<lparr>Username = ''seller'', TokenType = ''access'', ExpiresAt = None, NotBefore = None,
        IssuedAt = None\<rparr> (HMAC SHA384 jwtSecret))] ''access''
     = Inr \<lparr>Username = ''seller'', TokenType = ''access'', ExpiresAt = None, NotBefore = None,
        IssuedAt = None\<rparr>"
  by (simp add: declared_alg_def validateJWT_def ParseWithClaims_def ParseUnverified_def
      GetSigningMethod_def keyFunc_def Verify_def Validate_def)

text \<open>
  Claim C6, amended. Verification fails for every token whose declared algorithm is not
  one of the HMAC family HS256, HS384, HS512; in particular a token that declares
  \<open>none\<close> is rejected whatever its payload. Issued tokens declare HS256.
\<close>

theorem algorithm_family_rejection:
  "(declared_alg tokenString \<notin> {Some ''HS256'', Some ''HS384'', Some ''HS512''} \<longrightarrow>
      validateJWT now tokenString expectedType = Inl ErrTokenInvalidClaims)
   \<and> (declared_alg tokenString = Some ''none'' \<longrightarrow>
      validateJWT now tokenString expectedType = Inl ErrTokenInvalidClaims)
   \<and> (\<exists>access refresh s'.
        generateTokenPair SignedString ck username s = (Inr (access, refresh), s') \<and>
        declared_alg access = Some ''HS256'' \<and> declared_alg refresh = Some ''HS256'')"
proof (intro conjI impI)
  assume "declared_alg tokenString \<notin> {Some ''HS256'', Some ''HS384'', Some ''HS512''}"
  then show "validateJWT now tokenString expectedType = Inl ErrTokenInvalidClaims"
    using validateJWT_cases [of now tokenString expectedType] validateJWT_declared_alg
    by blast
next
  assume "declared_alg tokenString = Some ''none''"
  then have "declared_alg tokenString \<notin> {Some ''HS256'', Some ''HS384'', Some ''HS512''}"
    by simp
  then show "validateJWT now tokenString expectedType = Inl ErrTokenInvalidClaims"
    using validateJWT_cases [of now tokenString expectedType] validateJWT_declared_alg
    by blast
next
  show "\<exists>access refresh s'.
        generateTokenPair SignedString ck username s = (Inr (access, refresh), s') \<and>
        declared_alg access = Some ''HS256'' \<and> declared_alg refresh = Some ''HS256''"
    by (simp add: generateTokenPair_SignedString declared_alg_def access_token_def
        refresh_token_def)
qed

theorem algorithm_family_rejection_witness:
  "validateJWT 0 [Tok (JWS ''none''
       \<lparr>Username = ''seller'', TokenType = ''access'', ExpiresAt = None, NotBefore = None,
        IssuedAt = None\<rparr> (NotAMac []))] ''access'' = Inl ErrTokenInvalidClaims
   \<and> validateJWT 0 [Tok (JWS ''RS256''
       \<lparr>Username = ''seller'', TokenType = ''access'', ExpiresAt = None, NotBefore = None,
        IssuedAt = None\<rparr> (HMAC SHA256 jwtSecret))] ''access'' = Inl ErrTokenInvalidClaims"
  using algorithm_family_rejection [where now = 0 and expectedType = "''access''" and
      tokenString = "[Tok (JWS ''none''
       \<lparr>Username = ''seller'', TokenType = ''access'', ExpiresAt = None, NotBefore = None,
        IssuedAt = None\<rparr> (NotAMac []))]"]
    algorithm_family_rejection [where now = 0 and expectedType = "''access''" and
      tokenString = "[Tok (JWS ''RS256''
       \<lparr>Username = ''seller'', TokenType = ''access'', ExpiresAt = None, NotBefore = None,
        IssuedAt = None\<rparr> (HMAC SHA256 jwtSecret))]"]
  by (simp add: declared_alg_def)

text \<open>
  Claim C8. With the library's signer, generating a token pair for any user name succeeds,
  and at every instant before the access token's expiry the access token verifies as an
  access token with that user name, while verifying it as a refresh token fails: the
  library accepts the token and the type check refuses it (the error value is the same
  \<open>ErrTokenInvalidClaims\<close> that every failure of \<open>validateJWT\<close> returns). A login with
  the demo credentials answers 200 with that pair and an expiry of 900 seconds.
\<close>

theorem issue_verify_round_trip:
  "\<exists>access refresh s'.
     generateTokenPair SignedString ck username s = (Inr (access, refresh), s') \<and>
     (\<forall>vnow. vnow < NewNumericDate (now_at_exp ck + accessTokenTTL) \<longrightarrow>
        (\<exists>c. validateJWT vnow access ''access'' = Inr c \<and> Username c = username) \<and>
        (\<exists>t. ParseWithClaims vnow access keyFunc = Inr t \<and> Valid t \<and>
             TokenType (tok_Claims t) \<noteq> ''refresh'') \<and>
        validateJWT vnow access ''refresh'' = Inl ErrTokenInvalidClaims) \<and>
     (\<not> decode_err (Body r) \<and> body_Username (Body r) = demoUsername \<and>
      body_Password (Body r) = demoPassword \<and> username = demoUsername \<longrightarrow>
        loginHandler SignedString ck r s =
          (respond StatusOK
             (LoginData \<lparr>AccessToken = access, RefreshToken = refresh, ExpiresIn = 900,
                         Message = ''login successful''\<rparr>) [], s'))"
proof -
  let ?a = "access_token ck username"
  let ?r = "refresh_token ck username"
  let ?s' = "s\<lparr>refreshTokens := (refreshTokens s)(?r \<mapsto> username)\<rparr>"
  let ?c = "\<lparr>Username = username, TokenType = ''access'',
         ExpiresAt = Some (NewNumericDate (now_at_exp ck + accessTokenTTL)),
         NotBefore = None, IssuedAt = Some (NewNumericDate (now_at_iat ck))\<rparr>"
  let ?t = "\<lparr>tok_Method = SigningMethodHMAC SHA256, tok_Claims = ?c,
           tok_Signature = HMAC SHA256 jwtSecret, Valid = True\<rparr>"
  have g: "generateTokenPair SignedString ck username s = (Inr (?a, ?r), ?s')"
    by (rule generateTokenPair_SignedString)
  have v: "(\<exists>c. validateJWT vnow ?a ''access'' = Inr c \<and> Username c = username) \<and>
        (\<exists>t. ParseWithClaims vnow ?a keyFunc = Inr t \<and> Valid t \<and>
             TokenType (tok_Claims t) \<noteq> ''refresh'') \<and>
        validateJWT vnow ?a ''refresh'' = Inl ErrTokenInvalidClaims"
    if lt: "vnow < NewNumericDate (now_at_exp ck + accessTokenTTL)" for vnow
  proof (intro conjI)
    show "\<exists>c. validateJWT vnow ?a ''access'' = Inr c \<and> Username c = username"
      using lt by (simp add: validate_access_token)
    have "ParseWithClaims vnow ?a keyFunc = Inr ?t"
      using lt by (simp add: access_token_def ParseWithClaims_Tok GetSigningMethod_def
          Validate_def)
    then show "\<exists>t. ParseWithClaims vnow ?a keyFunc = Inr t \<and> Valid t \<and>
             TokenType (tok_Claims t) \<noteq> ''refresh''"
      by simp
    show "validateJWT vnow ?a ''refresh'' = Inl ErrTokenInvalidClaims"
      by (simp add: validate_access_token)
  qed
  have l: "loginHandler SignedString ck r s =
          (respond StatusOK
             (LoginData \<lparr>AccessToken = ?a, RefreshToken = ?r, ExpiresIn = 900,
                         Message = ''login successful''\<rparr>) [], ?s')"
    if "\<not> decode_err (Body r) \<and> body_Username (Body r) = demoUsername \<and>
      body_Password (Body r) = demoPassword \<and> username = demoUsername"
    using that
    by (simp add: loginHandler_def Let_def generateTokenPair_SignedString accessTokenTTL_def
        Minute_def Second_def)
  show ?thesis
    apply (rule exI [of _ ?a])
    apply (rule exI [of _ ?r])
    apply (rule exI [of _ ?s'])
    using g v l by blast
qed

theorem issue_verify_round_trip_witness:
  "\<exists>access refresh s'.
     generateTokenPair SignedString (clock_at 1700000000200000000) ''seller'' initial_store
       = (Inr (access, refresh), s') \<and>
     (\<exists>c. validateJWT 1700000001000000000 access ''access'' = Inr c \<and> Username c = ''seller'') \<and>
     validateJWT 1700000001000000000 access ''refresh'' = Inl ErrTokenInvalidClaims \<and>
     loginHandler SignedString (clock_at 1700000000200000000)
       (login_request ''seller'' ''carmarket123'') initial_store =
       (respond StatusOK
          (LoginData \<lparr>AccessToken = access, RefreshToken = refresh, ExpiresIn = 900,
                      Message = ''login successful''\<rparr>) [], s')"
proof -
  have lt: "(1700000001000000000::int)
      < NewNumericDate (now_at_exp (clock_at 1700000000200000000) + accessTokenTTL)"
    by (simp add: clock_at_def accessTokenTTL_def Minute_def Second_def NewNumericDate_def)
  have cr: "\<not> decode_err (Body (login_request ''seller'' ''carmarket123'')) \<and>
      body_Username (Body (login_request ''seller'' ''carmarket123'')) = demoUsername \<and>
      body_Password (Body (login_request ''seller'' ''carmarket123'')) = demoPassword \<and>
      ''seller'' = demoUsername"
    by (simp add: login_request_def demoUsername_def demoPassword_def)
  from issue_verify_round_trip [of "clock_at 1700000000200000000" "''seller''" initial_store
      "login_request ''seller'' ''carmarket123''"]
  obtain access refresh s' where
    g: "generateTokenPair SignedString (clock_at 1700000000200000000) ''seller'' initial_store
       = (Inr (access, refresh), s')"
    and v: "\<forall>vnow. vnow < NewNumericDate (now_at_exp (clock_at 1700000000200000000) + accessTokenTTL) \<longrightarrow>
        (\<exists>c. validateJWT vnow access ''access'' = Inr c \<and> Username c = ''seller'') \<and>
        (\<exists>t. ParseWithClaims vnow access keyFunc = Inr t \<and> Valid t \<and>
             TokenType (tok_Claims t) \<noteq> ''refresh'') \<and>
        validateJWT vnow access ''refresh'' = Inl ErrTokenInvalidClaims"
    and l: "\<not> decode_err (Body (login_request ''seller'' ''carmarket123'')) \<and>
      body_Username (Body (login_request ''seller'' ''carmarket123'')) = demoUsername \<and>
      body_Password (Body (login_request ''seller'' ''carmarket123'')) = demoPassword \<and>
      ''seller'' = demoUsername \<longrightarrow>
        loginHandler SignedString (clock_at 1700000000200000000)
          (login_request ''seller'' ''carmarket123'') initial_store =
          (respond StatusOK
             (LoginData \<lparr>AccessToken = access, RefreshToken = refresh, ExpiresIn = 900,
                         Message = ''login successful''\<rparr>) [], s')"
    by blast
  from v lt have
    "(\<exists>c. validateJWT 1700000001000000000 access ''access'' = Inr c \<and> Username c = ''seller'') \<and>
     validateJWT 1700000001000000000 access ''refresh'' = Inl ErrTokenInvalidClaims"
    by blast
  with g l cr show ?thesis by blast
qed

text \<open>
  Claim C10. The access guard rejects an empty header with 401; otherwise it removes one
  leading \<open>Bearer\<close> prefix if the header has it, leaves the header as it is if not, and
  validates the result as an access token: on failure it answers 401, on success it calls
  the next handler with the claims attached. So a valid access token is accepted with the
  prefix and without it.
\<close>

theorem bearer_prefix_optional:
  "AuthMiddleware vnow nxt r s =
     (if Authorization r = []
      then (respond StatusUnauthorized Nil ''authorization header required'', s)
      else (case validateJWT vnow (TrimPrefix (Authorization r) (str ''Bearer '')) ''access'' of
              Inl e \<Rightarrow> (respond StatusUnauthorized Nil ''invalid or expired access token'', s)
            | Inr claims \<Rightarrow> nxt (r\<lparr>ctx_claims := Some claims\<rparr>) s))
   \<and> TrimPrefix (str ''Bearer '' @ tok) (str ''Bearer '') = tok
   \<and> (take (length (str ''Bearer '')) hdr \<noteq> str ''Bearer '' \<longrightarrow> TrimPrefix hdr (str ''Bearer '') = hdr)
   \<and> (validateJWT vnow tok ''access'' = Inr c \<and> Authorization r = tok \<longrightarrow>
        AuthMiddleware vnow nxt r s = nxt (r\<lparr>ctx_claims := Some c\<rparr>) s)
   \<and> (validateJWT vnow tok ''access'' = Inr c \<and> Authorization r = str ''Bearer '' @ tok \<longrightarrow>
        AuthMiddleware vnow nxt r s = nxt (r\<lparr>ctx_claims := Some c\<rparr>) s)"
proof (intro conjI impI)
  show "AuthMiddleware vnow nxt r s =
     (if Authorization r = []
      then (respond StatusUnauthorized Nil ''authorization header required'', s)
      else (case validateJWT vnow (TrimPrefix (Authorization r) (str ''Bearer '')) ''access'' of
              Inl e \<Rightarrow> (respond StatusUnauthorized Nil ''invalid or expired access token'', s)
            | Inr claims \<Rightarrow> nxt (r\<lparr>ctx_claims := Some claims\<rparr>) s))"
    by (rule AuthMiddleware_eq)
next
  show "TrimPrefix (str ''Bearer '' @ tok) (str ''Bearer '') = tok"
    by (rule TrimPrefix_Bearer)
next
  assume "take (length (str ''Bearer '')) hdr \<noteq> str ''Bearer ''"
  then show "TrimPrefix hdr (str ''Bearer '') = hdr"
    by (simp add: TrimPrefix_def)
next
  assume h: "validateJWT vnow tok ''access'' = Inr c \<and> Authorization r = tok"
  then obtain j where j: "tok = [Tok j]" by (auto simp: validateJWT_Inr_iff)
  show "AuthMiddleware vnow nxt r s = nxt (r\<lparr>ctx_claims := Some c\<rparr>) s"
    using h by (simp add: AuthMiddleware_eq j TrimPrefix_Tok)
next
  assume h: "validateJWT vnow tok ''access'' = Inr c \<and> Authorization r = str ''Bearer '' @ tok"
  then show "AuthMiddleware vnow nxt r s = nxt (r\<lparr>ctx_claims := Some c\<rparr>) s"
    by (simp add: AuthMiddleware_eq TrimPrefix_Bearer) (simp add: str_def)
qed

lemma validate_access_example:
  "validateJWT 5 (access_token (clock_at 0) ''seller'') ''access'' =
      Inr \<lparr>Username = ''seller'', TokenType = ''access'',
         ExpiresAt = Some 900000000000, NotBefore = None, IssuedAt = Some 0\<rparr>"
  by (simp add: validate_access_token clock_at_def accessTokenTTL_def Minute_def
        Second_def NewNumericDate_def)

theorem bearer_prefix_optional_witness:
  "AuthMiddleware 5 logoutHandler
      ((refresh_request [])\<lparr>Authorization := access_token (clock_at 0) ''seller''\<rparr>) initial_store
     = logoutHandler ((refresh_request [])\<lparr>Authorization := access_token (clock_at 0) ''seller'',
          ctx_claims := Some \<lparr>Username = ''seller'', TokenType = ''access'',
            ExpiresAt = Some 900000000000, NotBefore = None, IssuedAt = Some 0\<rparr>\<rparr>) initial_store
   \<and> AuthMiddleware 5 logoutHandler
      ((refresh_request [])\<lparr>Authorization := str ''Bearer '' @ access_token (clock_at 0) ''seller''\<rparr>)
      initial_store
     = logoutHandler ((refresh_request [])\<lparr>Authorization := str ''Bearer '' @ access_token (clock_at 0) ''seller'',
          ctx_claims := Some \<lparr>Username = ''seller'', TokenType = ''access'',
            ExpiresAt = Some 900000000000, NotBefore = None, IssuedAt = Some 0\<rparr>\<rparr>) initial_store
   \<and> TrimPrefix (access_token (clock_at 0) ''seller'') (str ''Bearer '')
     = access_token (clock_at 0) ''seller''"
  using bearer_prefix_optional [where vnow = 5 and tok = "access_token (clock_at 0) ''seller''"
      and r = "(refresh_request [])\<lparr>Authorization := access_token (clock_at 0) ''seller''\<rparr>"
      and nxt = logoutHandler and s = initial_store and hdr = "access_token (clock_at 0) ''seller''"
      and c = "\<lparr>Username = ''seller'', TokenType = ''access'',
            ExpiresAt = Some 900000000000, NotBefore = None, IssuedAt = Some 0\<rparr>"]
    bearer_prefix_optional [where vnow = 5 and tok = "access_token (clock_at 0) ''seller''"
      and r = "(refresh_request [])\<lparr>Authorization := str ''Bearer '' @ access_token (clock_at 0) ''seller''\<rparr>"
      and nxt = logoutHandler and s = initial_store
      and c = "\<lparr>Username = ''seller'', TokenType = ''access'',
            ExpiresAt = Some 900000000000, NotBefore = None, IssuedAt = Some 0\<rparr>"]
    validate_access_example
  by (simp add: access_token_def str_def)

subsection \<open>The session handlers\<close>

lemma api_logout_eq:
  "api_logout vnow r s = AuthMiddleware vnow (MethodMiddleware ''POST'' logoutHandler) r s"
  by (simp add: api_logout_def LoggingMiddleware_def Chain_def)

lemma logoutHandler_eq:
  "logoutHandler r s =
     (respond StatusOK (MessageData ''logged out'') [],
      if body_RefreshToken (Body r) \<noteq> []
      then s\<lparr>refreshTokens := (refreshTokens s)(body_RefreshToken (Body r) := None)\<rparr>
      else s)"
  by (simp add: logoutHandler_def Let_def)

text \<open>
  Claim C9. Whatever the decoded body (a refresh token in the store, one that is not, the
  empty string, anything left by a failed decode) and whatever the store, the logout
  handler answers 200 with a success envelope; it removes exactly the given token when it
  is not empty; and a second logout with the same request gives the same answer and
  leaves the store as the first one left it. On the route \<open>/api/logout\<close> the handler
  stands behind the access guard and the method check: a request that passes them gets
  that answer.
\<close>

theorem logout_total_idempotent:
  "fst (logoutHandler r s) = respond StatusOK (MessageData ''logged out'') []
   \<and> status (fst (logoutHandler r s)) = 200
   \<and> Success (fst (logoutHandler r s))
   \<and> refreshTokens (snd (logoutHandler r s)) =
       (if body_RefreshToken (Body r) = [] then refreshTokens s
        else (refreshTokens s)(body_RefreshToken (Body r) := None))
   \<and> rateLimiter (snd (logoutHandler r s)) = rateLimiter s
   \<and> logoutHandler r (snd (logoutHandler r s)) = logoutHandler r s
   \<and> (Authorization r \<noteq> [] \<and>
       validateJWT vnow (TrimPrefix (Authorization r) (str ''Bearer '')) ''access'' = Inr c \<and>
       (Method r = ''POST'' \<or> Method r = ''OPTIONS'') \<longrightarrow>
         fst (api_logout vnow r s) = respond StatusOK (MessageData ''logged out'') [])"
proof (intro conjI impI)
  show "logoutHandler r (snd (logoutHandler r s)) = logoutHandler r s"
    by (simp add: logoutHandler_eq)
next
  assume "Authorization r \<noteq> [] \<and>
       validateJWT vnow (TrimPrefix (Authorization r) (str ''Bearer '')) ''access'' = Inr c \<and>
       (Method r = ''POST'' \<or> Method r = ''OPTIONS'')"
  then show "fst (api_logout vnow r s) = respond StatusOK (MessageData ''logged out'') []"
    by (auto simp: api_logout_eq AuthMiddleware_eq MethodMiddleware_def logoutHandler_eq)
qed (simp_all add: logoutHandler_eq respond_def StatusOK_def)

theorem logout_total_idempotent_witness:
  "fst (logoutHandler (refresh_request (str ''not a token'')) initial_store)
     = respond StatusOK (MessageData ''logged out'') []
   \<and> fst (logoutHandler (refresh_request []) initial_store)
     = respond StatusOK (MessageData ''logged out'') []
   \<and> fst (api_logout 5
        ((refresh_request (str ''not a token''))
           \<lparr>Authorization := str ''Bearer '' @ access_token (clock_at 0) ''seller''\<rparr>) initial_store)
     = respond StatusOK (MessageData ''logged out'') []"
  using logout_total_idempotent [where r = "refresh_request (str ''not a token'')" and s = initial_store]
    logout_total_idempotent [where r = "refresh_request []" and s = initial_store]
    logout_total_idempotent [where vnow = 5 and s = initial_store and
      r = "(refresh_request (str ''not a token''))
           \<lparr>Authorization := str ''Bearer '' @ access_token (clock_at 0) ''seller''\<rparr>" and
      c = "\<lparr>Username = ''seller'', TokenType = ''access'',
            ExpiresAt = Some 900000000000, NotBefore = None, IssuedAt = Some 0\<rparr>"]
    validate_access_example
  by (simp add: TrimPrefix_Bearer refresh_request_def) (simp add: str_def)

lemma refreshHandler_passed:
  assumes "\<not> decode_err (Body r)"
    and "validateJWT vnow (body_RefreshToken (Body r)) ''refresh'' = Inr c"
    and "refreshTokens s (body_RefreshToken (Body r)) = Some u"
  shows "refreshHandler sgnr vnow ck r s =
     (case generateTokenPair sgnr ck (Username c) (without_token s (body_RefreshToken (Body r))) of
        (Inl e, s') \<Rightarrow> (respond StatusInternalServerError Nil ''token generation failed'', s')
      | (Inr (access, refresh), s') \<Rightarrow>
          (respond StatusOK
             (LoginData \<lparr>AccessToken = access, RefreshToken = refresh,
                         ExpiresIn = 900, Message = ''tokens refreshed''\<rparr>) [], s'))"
  using assms
  by (simp add: refreshHandler_def Let_def without_token_def accessTokenTTL_def Minute_def
      Second_def split: prod.splits sum.splits)



lemma refreshHandler_SignedString:
  assumes "\<not> decode_err (Body r)"
    and "validateJWT vnow (body_RefreshToken (Body r)) ''refresh'' = Inr c"
    and "refreshTokens s (body_RefreshToken (Body r)) = Some u"
  shows "refreshHandler SignedString vnow ck r s =
     (respond StatusOK
        (LoginData \<lparr>AccessToken = access_token ck (Username c),
                    RefreshToken = refresh_token ck (Username c),
                    ExpiresIn = 900, Message = ''tokens refreshed''\<rparr>) [],
      s\<lparr>refreshTokens := ((refreshTokens s)(body_RefreshToken (Body r) := None))
           (refresh_token ck (Username c) \<mapsto> Username c)\<rparr>)"
  by (simp add: refreshHandler_passed [OF assms] generateTokenPair_SignedString
      without_token_def)





text \<open>
  Replay of a rotated token is refused whenever the rotation issued a refresh token that
  differs from the one it consumed.
\<close>

lemma rotate_then_replay_rejected:
  assumes "\<not> decode_err (Body r)"
    and "validateJWT vnow (body_RefreshToken (Body r)) ''refresh'' = Inr c"
    and "refreshTokens s (body_RefreshToken (Body r)) = Some u"
    and "refresh_token ck (Username c) \<noteq> body_RefreshToken (Body r)"
  shows "status (fst (refreshHandler sgnr' vnow' ck' r
            (snd (refreshHandler SignedString vnow ck r s)))) = 401
     \<and> snd (refreshHandler sgnr' vnow' ck' r (snd (refreshHandler SignedString vnow ck r s)))
         = snd (refreshHandler SignedString vnow ck r s)"
proof -
  let ?s' = "snd (refreshHandler SignedString vnow ck r s)"
  have "refreshTokens ?s' (body_RefreshToken (Body r)) = None"
    using assms(4) by (simp add: refreshHandler_SignedString [OF assms(1-3)])
  then show ?thesis
    using assms(1)
    by (simp add: refreshHandler_def [of sgnr' vnow' ck' r ?s'] Let_def respond_def
        StatusUnauthorized_def split: sum.splits)
qed

text \<open>
  Claim C1, the code at its failing input. The issued token is a function of the user name
  and of the clock truncated to seconds. A rotation of a stored refresh token \<open>t\<close> whose
  issuance falls into the second in which \<open>t\<close> was issued builds the string \<open>t\<close> again
  and records it: the rotation answers 200 with \<open>t\<close> as the new refresh token, \<open>t\<close> is
  in the store afterwards, and a second rotation of \<open>t\<close> answers 200 as well.
\<close>

theorem replay_within_one_second:
  "\<not> decode_err (Body r) \<and> body_RefreshToken (Body r) = refresh_token ck0 u \<and>
   refreshTokens s (refresh_token ck0 u) = Some u \<and>
   vnow < NewNumericDate (now_rt_exp ck0 + refreshTokenTTL) \<and>
   vnow' < NewNumericDate (now_rt_exp ck0 + refreshTokenTTL) \<and>
   NewNumericDate (now_rt_exp ck + refreshTokenTTL) = NewNumericDate (now_rt_exp ck0 + refreshTokenTTL) \<and>
   NewNumericDate (now_rt_iat ck) = NewNumericDate (now_rt_iat ck0) \<longrightarrow>
     refreshHandler SignedString vnow ck r s =
       (respond StatusOK
          (LoginData \<lparr>AccessToken = access_token ck u, RefreshToken = refresh_token ck0 u,
                      ExpiresIn = 900, Message = ''tokens refreshed''\<rparr>) [], s)
     \<and> refreshTokens (snd (refreshHandler SignedString vnow ck r s)) (refresh_token ck0 u) = Some u
     \<and> status (fst (refreshHandler SignedString vnow' ck' r
           (snd (refreshHandler SignedString vnow ck r s)))) = 200"
proof (intro impI)
  assume h: "\<not> decode_err (Body r) \<and> body_RefreshToken (Body r) = refresh_token ck0 u \<and>
   refreshTokens s (refresh_token ck0 u) = Some u \<and>
   vnow < NewNumericDate (now_rt_exp ck0 + refreshTokenTTL) \<and>
   vnow' < NewNumericDate (now_rt_exp ck0 + refreshTokenTTL) \<and>
   NewNumericDate (now_rt_exp ck + refreshTokenTTL) = NewNumericDate (now_rt_exp ck0 + refreshTokenTTL) \<and>
   NewNumericDate (now_rt_iat ck) = NewNumericDate (now_rt_iat ck0)"
  let ?t = "refresh_token ck0 u"
  let ?c = "\<lparr>Username = u, TokenType = ''refresh'',
         ExpiresAt = Some (NewNumericDate (now_rt_exp ck0 + refreshTokenTTL)),
         NotBefore = None, IssuedAt = Some (NewNumericDate (now_rt_iat ck0))\<rparr>"
  have same: "refresh_token ck u = ?t"
    using h by (simp add: refresh_token_def)
  have v: "validateJWT vnow (body_RefreshToken (Body r)) ''refresh'' = Inr ?c"
    using h by (simp add: validate_refresh_token)
  have v': "validateJWT vnow' (body_RefreshToken (Body r)) ''refresh'' = Inr ?c"
    using h by (simp add: validate_refresh_token)
  have m: "(refreshTokens s)(?t \<mapsto> u) = refreshTokens s"
    using h by (simp add: map_upd_triv)
  have upd: "s\<lparr>refreshTokens := (refreshTokens s)(?t \<mapsto> u)\<rparr> = s"
    by (simp add: m)
  have first: "refreshHandler SignedString vnow ck r s =
       (respond StatusOK
          (LoginData \<lparr>AccessToken = access_token ck u, RefreshToken = ?t,
                      ExpiresIn = 900, Message = ''tokens refreshed''\<rparr>) [], s)"
    using refreshHandler_SignedString [of r vnow ?c s u ck] h v
    by (simp add: same upd)
  have second: "status (fst (refreshHandler SignedString vnow' ck' r s)) = 200"
    using refreshHandler_SignedString [of r vnow' ?c s u ck'] h v'
    by (simp add: respond_def StatusOK_def)
  show "refreshHandler SignedString vnow ck r s =
       (respond StatusOK
          (LoginData \<lparr>AccessToken = access_token ck u, RefreshToken = ?t,
                      ExpiresIn = 900, Message = ''tokens refreshed''\<rparr>) [], s)
     \<and> refreshTokens (snd (refreshHandler SignedString vnow ck r s)) ?t = Some u
     \<and> status (fst (refreshHandler SignedString vnow' ck' r
           (snd (refreshHandler SignedString vnow ck r s)))) = 200"
    using first second h by simp
qed

theorem replay_within_one_second_witness:
  "snd (loginHandler SignedString (clock_at 1700000000100000000)
         (login_request ''seller'' ''carmarket123'') initial_store)
     = store_with (refresh_token (clock_at 1700000000100000000) ''seller'') ''seller''
   \<and> refreshHandler SignedString 1700000000500000000 (clock_at 1700000000500000000)
       (refresh_request (refresh_token (clock_at 1700000000100000000) ''seller''))
       (store_with (refresh_token (clock_at 1700000000100000000) ''seller'') ''seller'')
     = (respond StatusOK
          (LoginData \<lparr>AccessToken = access_token (clock_at 1700000000500000000) ''seller'',
                      RefreshToken = refresh_token (clock_at 1700000000100000000) ''seller'',
                      ExpiresIn = 900, Message = ''tokens refreshed''\<rparr>) [],
        store_with (refresh_token (clock_at 1700000000100000000) ''seller'') ''seller'')
   \<and> status (fst (refreshHandler SignedString 1700000000900000000 (clock_at 1700000000900000000)
       (refresh_request (refresh_token (clock_at 1700000000100000000) ''seller''))
       (store_with (refresh_token (clock_at 1700000000100000000) ''seller'') ''seller''))) = 200"
proof -
  let ?t = "refresh_token (clock_at 1700000000100000000) ''seller''"
  let ?s = "store_with ?t ''seller''"
  have login: "snd (loginHandler SignedString (clock_at 1700000000100000000)
         (login_request ''seller'' ''carmarket123'') initial_store) = ?s"
    by (simp add: loginHandler_def Let_def login_request_def demoUsername_def demoPassword_def
        generateTokenPair_SignedString store_with_def initial_store_def)
  have hyp: "\<not> decode_err (Body (refresh_request ?t)) \<and>
     body_RefreshToken (Body (refresh_request ?t)) = ?t \<and>
     refreshTokens ?s ?t = Some ''seller'' \<and>
     1700000000500000000 < NewNumericDate (now_rt_exp (clock_at 1700000000100000000) + refreshTokenTTL) \<and>
     1700000000900000000 < NewNumericDate (now_rt_exp (clock_at 1700000000100000000) + refreshTokenTTL) \<and>
     NewNumericDate (now_rt_exp (clock_at 1700000000500000000) + refreshTokenTTL) =
       NewNumericDate (now_rt_exp (clock_at 1700000000100000000) + refreshTokenTTL) \<and>
     NewNumericDate (now_rt_iat (clock_at 1700000000500000000)) =
       NewNumericDate (now_rt_iat (clock_at 1700000000100000000))"
    by (simp add: refresh_request_def store_with_def clock_at_def refreshTokenTTL_def Hour_def
        Minute_def Second_def NewNumericDate_def)
  from replay_within_one_second [of "refresh_request ?t" "clock_at 1700000000100000000"
      "''seller''" ?s 1700000000500000000 1700000000900000000 "clock_at 1700000000500000000"
      "clock_at 1700000000900000000"] hyp
  have concl: "refreshHandler SignedString 1700000000500000000 (clock_at 1700000000500000000)
       (refresh_request ?t) ?s
     = (respond StatusOK
          (LoginData \<lparr>AccessToken = access_token (clock_at 1700000000500000000) ''seller'',
                      RefreshToken = ?t, ExpiresIn = 900, Message = ''tokens refreshed''\<rparr>) [], ?s)
     \<and> status (fst (refreshHandler SignedString 1700000000900000000 (clock_at 1700000000900000000)
           (refresh_request ?t)
           (snd (refreshHandler SignedString 1700000000500000000 (clock_at 1700000000500000000)
              (refresh_request ?t) ?s)))) = 200"
    by blast
  then have first: "refreshHandler SignedString 1700000000500000000 (clock_at 1700000000500000000)
       (refresh_request ?t) ?s
     = (respond StatusOK
          (LoginData \<lparr>AccessToken = access_token (clock_at 1700000000500000000) ''seller'',
                      RefreshToken = ?t, ExpiresIn = 900, Message = ''tokens refreshed''\<rparr>) [], ?s)"
    by (rule conjunct1)
  have second: "status (fst (refreshHandler SignedString 1700000000900000000
       (clock_at 1700000000900000000) (refresh_request ?t) ?s)) = 200"
    using conjunct2 [OF concl] unfolding first snd_conv .
  from login first second show ?thesis by (intro conjI)
qed

subsection \<open>Two rotations at once\<close>

text \<open>Run alone, the four steps of a call are the handler.\<close>

lemma refresh_steps_sequential:
  "refresh_steps 4 \<lparr>call_signer = sgnr, call_vnow = vnow, call_clock = ck, call_request = r\<rparr>
      AtEntry s =
     (Returned (fst (refreshHandler sgnr vnow ck r s)), snd (refreshHandler sgnr vnow ck r s))"
  by (simp add: numeral_eq_Suc refresh_step_def refreshHandler_def Let_def
      split: sum.splits option.splits prod.splits)

lemma refresh_step_entry:
  "validateJWT vnow t ''refresh'' = Inr c \<Longrightarrow>
   refresh_step (rotate_call vnow ck t) AtEntry s = (AtCheck c, s)"
  by (simp add: refresh_step_def rotate_call_def refresh_request_def)

lemma refresh_step_check:
  "refresh_step (rotate_call vnow ck t) (AtCheck c) s =
     (case refreshTokens s t of
        None \<Rightarrow> (Returned (respond StatusUnauthorized Nil ''refresh token revoked''), s)
      | Some owner \<Rightarrow> (AtDelete c, s))"
  by (simp add: refresh_step_def rotate_call_def refresh_request_def)

lemma refresh_step_delete:
  "refresh_step (rotate_call vnow ck t) (AtDelete c) s = (AtIssue c, without_token s t)"
  by (simp add: refresh_step_def rotate_call_def refresh_request_def without_token_def)

lemma refresh_step_issue:
  "refresh_step (rotate_call vnow ck t) (AtIssue c) s =
     (Returned (respond StatusOK
        (LoginData \<lparr>AccessToken = access_token ck (Username c),
                    RefreshToken = refresh_token ck (Username c),
                    ExpiresIn = 900, Message = ''tokens refreshed''\<rparr>) []),
      s\<lparr>refreshTokens := (refreshTokens s)(refresh_token ck (Username c) \<mapsto> Username c)\<rparr>)"
  by (simp add: refresh_step_def rotate_call_def generateTokenPair_SignedString
      accessTokenTTL_def Minute_def Second_def)

text \<open>
  Claim C2, the code at its failing input. The membership check and the deletion are two
  critical sections, so two rotations of one valid, stored refresh token can both pass the
  check before either deletes: under the schedule that alternates the two calls step by
  step, both return 200 with a new pair, and both new refresh tokens are recorded.
\<close>

theorem concurrent_double_rotation:
  "validateJWT vnowA t ''refresh'' = Inr c \<and> validateJWT vnowB t ''refresh'' = Inr c \<and>
   refreshTokens s t = Some u \<longrightarrow>
     interleave (rotate_call vnowA ckA t) (rotate_call vnowB ckB t)
       [True, False, True, False, True, False, True, False] (AtEntry, AtEntry, s) =
       (Returned (respond StatusOK
          (LoginData \<lparr>AccessToken = access_token ckA (Username c),
                      RefreshToken = refresh_token ckA (Username c),
                      ExpiresIn = 900, Message = ''tokens refreshed''\<rparr>) []),
        Returned (respond StatusOK
          (LoginData \<lparr>AccessToken = access_token ckB (Username c),
                      RefreshToken = refresh_token ckB (Username c),
                      ExpiresIn = 900, Message = ''tokens refreshed''\<rparr>) []),
        s\<lparr>refreshTokens := ((refreshTokens s)(t := None))
             (refresh_token ckA (Username c) \<mapsto> Username c,
              refresh_token ckB (Username c) \<mapsto> Username c)\<rparr>)"
  by (simp add: refresh_step_entry refresh_step_check refresh_step_delete refresh_step_issue
      without_token_def)

text \<open>
  When the first call runs to its end before the second starts, and its new refresh token
  differs from the old one, the second call is refused.
\<close>

lemma serial_rotations:
  assumes "validateJWT vnowA t ''refresh'' = Inr c" and "validateJWT vnowB t ''refresh'' = Inr c"
    and "refreshTokens s t = Some u" and "refresh_token ckA (Username c) \<noteq> t"
  shows "interleave (rotate_call vnowA ckA t) (rotate_call vnowB ckB t)
       [True, True, True, True, False, False, False, False] (AtEntry, AtEntry, s) =
       (Returned (respond StatusOK
          (LoginData \<lparr>AccessToken = access_token ckA (Username c),
                      RefreshToken = refresh_token ckA (Username c),
                      ExpiresIn = 900, Message = ''tokens refreshed''\<rparr>) []),
        Returned (respond StatusUnauthorized Nil ''refresh token revoked''),
        s\<lparr>refreshTokens := ((refreshTokens s)(t := None))
             (refresh_token ckA (Username c) \<mapsto> Username c)\<rparr>)"
  using assms
  by (simp add: refresh_step_entry refresh_step_check refresh_step_delete refresh_step_issue
      without_token_def refresh_step_def [of _ "Returned _"])

theorem concurrent_double_rotation_witness:
  "interleave
      (rotate_call 5000000000 (clock_at 5000000000) (refresh_token (clock_at 0) ''seller''))
      (rotate_call 6000000000 (clock_at 6000000000) (refresh_token (clock_at 0) ''seller''))
      [True, False, True, False, True, False, True, False]
      (AtEntry, AtEntry, store_with (refresh_token (clock_at 0) ''seller'') ''seller'') =
       (Returned (respond StatusOK
          (LoginData \<lparr>AccessToken = access_token (clock_at 5000000000) ''seller'',
                      RefreshToken = refresh_token (clock_at 5000000000) ''seller'',
                      ExpiresIn = 900, Message = ''tokens refreshed''\<rparr>) []),
        Returned (respond StatusOK
          (LoginData \<lparr>AccessToken = access_token (clock_at 6000000000) ''seller'',
                      RefreshToken = refresh_token (clock_at 6000000000) ''seller'',
                      ExpiresIn = 900, Message = ''tokens refreshed''\<rparr>) []),
        initial_store\<lparr>refreshTokens :=
           [refresh_token (clock_at 5000000000) ''seller'' \<mapsto> ''seller'',
            refresh_token (clock_at 6000000000) ''seller'' \<mapsto> ''seller'']\<rparr>)"
proof -
  let ?t = "refresh_token (clock_at 0) ''seller''"
  let ?c = "\<lparr>Username = ''seller'', TokenType = ''refresh'',
         ExpiresAt = Some 604800000000000, NotBefore = None, IssuedAt = Some 0\<rparr>"
  have h: "validateJWT 5000000000 ?t ''refresh'' = Inr ?c \<and>
      validateJWT 6000000000 ?t ''refresh'' = Inr ?c \<and>
      refreshTokens (store_with ?t ''seller'') ?t = Some ''seller''"
    by (simp add: validate_refresh_token clock_at_def refreshTokenTTL_def Hour_def Minute_def
        Second_def NewNumericDate_def store_with_def)
  have st: "(store_with ?t ''seller'')\<lparr>refreshTokens :=
        ((refreshTokens (store_with ?t ''seller''))(?t := None))
          (refresh_token (clock_at 5000000000) ''seller'' \<mapsto> ''seller'',
           refresh_token (clock_at 6000000000) ''seller'' \<mapsto> ''seller'')\<rparr>
      = initial_store\<lparr>refreshTokens :=
           [refresh_token (clock_at 5000000000) ''seller'' \<mapsto> ''seller'',
            refresh_token (clock_at 6000000000) ''seller'' \<mapsto> ''seller'']\<rparr>"
    by (simp add: store_with_def initial_store_def)
  from concurrent_double_rotation [of 5000000000 ?t ?c 6000000000 "store_with ?t ''seller''"
      "''seller''" "clock_at 5000000000" "clock_at 6000000000"] h
  show ?thesis by (simp add: st del: interleave.simps)
qed

end
